theory Spec2Isabelle
  imports Complex_Main "HOL-Library.Multiset"
begin

section \<open>Zero-shot classification notebooks: data model\<close>

text \<open>
  The two notebooks define the same class \<^verbatim>\<open>ZeroShotClassifier\<close> (the baseline notebook and
  the TSDAE notebook hold identical copies) and, in the baseline notebook, the loader
  \<^verbatim>\<open>read_dataset\<close>. Everything else is calls into third-party libraries.

  Conventions of the embedding:
  \<^item> A Python exception is a value of \<open>py_error\<close>; a call returns \<open>py_error + 'a\<close>.
  \<^item> A method of the class takes \<open>self\<close> and returns its outcome together with
    \<open>self\<close> as the call leaves it.
  \<^item> An array of embeddings is a value of \<open>ndarray\<close>: a matrix with its number of columns
    and its rows, or a one-dimensional array, a single vector with its number of entries.
    A row is a value of the type parameter \<open>'e\<close>; all arrays hold numbers of the one
    floating-point type the encoder produces.
  \<^item> A sentence encoder (\<^verbatim>\<open>SentenceTransformer.encode\<close>) is library code and is a parameter:
    a function from the argument it is given (\<open>None\<close> is Python's \<^verbatim>\<open>None\<close>) to either an
    exception or an array. Nothing is assumed about it. (The library returns a matrix with
    one row per text for a non-empty list of texts, and the one-dimensional array of shape
    \<^verbatim>\<open>(0,)\<close> for the empty list.)
  \<^item> The similarity \<^verbatim>\<open>util.pytorch_cos_sim\<close> is library code: entry \<open>(i, j)\<close> of its result
    is the similarity of row \<open>i\<close> of its first argument and row \<open>j\<close> of its second. The
    similarity of two rows is the parameter \<open>sim\<close>. Scores are compared only with \<open><\<close>, so
    they range over an arbitrary linear order (floating-point scores without NaN).
\<close>

datatype py_error =
    NameError | AttributeError | RuntimeError | IndexError | ValueError | OSError
  | LibraryError string

text \<open>
  \<open>Array2 d rows\<close> has shape \<open>(length rows, d)\<close>; \<open>Array1 d v\<close> has shape \<open>(d,)\<close>.
  \<open>shape0\<close> is \<^verbatim>\<open>.shape[0]\<close>. \<open>ncols\<close> and \<open>rows_of\<close> describe the array as
  \<^verbatim>\<open>util.pytorch_cos_sim\<close> sees it: a one-dimensional array is turned into a matrix of one
  row by \<^verbatim>\<open>unsqueeze(0)\<close>.
\<close>

datatype 'e ndarray = Array1 nat 'e | Array2 nat "'e list"

fun shape0 :: "'e ndarray \<Rightarrow> nat" where
  "shape0 (Array1 d v) = d"
| "shape0 (Array2 d rows) = length rows"

fun ncols :: "'e ndarray \<Rightarrow> nat" where
  "ncols (Array1 d v) = d"
| "ncols (Array2 d rows) = d"

fun rows_of :: "'e ndarray \<Rightarrow> 'e list" where
  "rows_of (Array1 d v) = [v]"
| "rows_of (Array2 d rows) = rows"

type_synonym 'e encoder = "string list option \<Rightarrow> py_error + 'e ndarray"

record ('e, 's) ZeroShotClassifier =
  model :: "'e encoder option"
  labels :: "string list"
  label_embeddings :: "'e ndarray option"
  threshold :: "'s option"
  null_label :: string

text \<open>What \<^verbatim>\<open>predict\<close> returns: a list, or a pair of lists when \<^verbatim>\<open>output_scores\<close> is set.\<close>

datatype 's prediction =
    Labels "string list"
  | LabelsAndScores "string list" "(string \<times> 's) list list"

fun predicted_labels_of :: "'s prediction \<Rightarrow> string list" where
  "predicted_labels_of (Labels pl) = pl"
| "predicted_labels_of (LabelsAndScores pl ps) = pl"

section \<open>The classifier\<close>

text \<open>
  \<^verbatim>\<open>
  def __init__(self, model=None, threshold=None, null_label="OTHER"):
      self.model = model
      self.labels = []
      self.label_embeddings = None
      self.threshold = threshold
      self.null_label = null_label
  \<close>
\<close>

definition init :: "'e encoder option \<Rightarrow> 's option \<Rightarrow> string \<Rightarrow> ('e, 's) ZeroShotClassifier" where
  "init m t nl =
     \<lparr> model = m, labels = [], label_embeddings = None, threshold = t, null_label = nl \<rparr>"

text \<open>
  \<^verbatim>\<open>
  def train(self, labels, descriptions):
      self.labels = labels
      self.label_embeddings = model.encode(descriptions)
  \<close>
  \<^verbatim>\<open>model\<close> is the notebook's global variable, not \<^verbatim>\<open>self.model\<close>. The first argument \<open>g\<close>
  is its binding when \<^verbatim>\<open>train\<close> runs (\<open>None\<close>: the name is unbound, a \<^verbatim>\<open>NameError\<close>). The
  assignment to \<^verbatim>\<open>self.labels\<close> comes first, so it survives a failing \<^verbatim>\<open>encode\<close>.
\<close>

definition train ::
  "'e encoder option \<Rightarrow> ('e, 's) ZeroShotClassifier \<Rightarrow> string list \<Rightarrow> string list
     \<Rightarrow> (py_error + unit) \<times> ('e, 's) ZeroShotClassifier" where
  "train g self lbls descriptions =
     (let self1 = self\<lparr>labels := lbls\<rparr> in
      case g of
        None \<Rightarrow> (Inl NameError, self1)
      | Some gm \<Rightarrow>
          (case gm (Some descriptions) of
             Inl e \<Rightarrow> (Inl e, self1)
           | Inr E \<Rightarrow> (Inr (), self1\<lparr>label_embeddings := Some E\<rparr>)))"

text \<open>
  \<^verbatim>\<open>sorted(xs, key=key, reverse=True)\<close>: Python's sort is stable, and with \<^verbatim>\<open>reverse=True\<close>
  elements with equal keys keep their original order (the list is reversed, sorted stably
  in ascending order, and reversed again).
\<close>

definition sorted_reverse :: "('a \<Rightarrow> 'k::linorder) \<Rightarrow> 'a list \<Rightarrow> 'a list" where
  "sorted_reverse key xs = rev (sort_key key (rev xs))"

text \<open>
  \<^verbatim>\<open>util.pytorch_cos_sim(a, b)\<close>: both arguments are made tensors, a one-dimensional one is
  given a first axis of length one, the rows are normalised, and the result is the matrix
  product \<^verbatim>\<open>torch.mm(a_norm, b_norm.transpose(0, 1))\<close>: the similarities of the rows of \<open>a\<close>
  and the rows of \<open>b\<close>. With \<open>b = None\<close> (no call to \<^verbatim>\<open>train\<close> yet) the conversion
  \<^verbatim>\<open>torch.tensor(None)\<close> raises a \<^verbatim>\<open>RuntimeError\<close>; when the two matrices differ in their
  number of columns the product raises a \<^verbatim>\<open>RuntimeError\<close>. So it does for the array of shape
  \<^verbatim>\<open>(0,)\<close>, which \<^verbatim>\<open>encode\<close> returns for an empty list, against any array with columns.
\<close>

definition pytorch_cos_sim ::
  "('e \<Rightarrow> 'e \<Rightarrow> 's) \<Rightarrow> 'e ndarray \<Rightarrow> 'e ndarray option \<Rightarrow> py_error + 's list list" where
  "pytorch_cos_sim sim a b =
     (case b of
        None \<Rightarrow> Inl RuntimeError
      | Some B \<Rightarrow>
          if ncols a = ncols B
          then Inr (map (\<lambda>x. map (sim x) (rows_of B)) (rows_of a))
          else Inl RuntimeError)"

text \<open>
  The body of the loop of \<^verbatim>\<open>predict\<close> for one row \<^verbatim>\<open>label_scores = S[i].tolist()\<close>:
  \<^verbatim>\<open>
  scored = sorted(zip(self.labels, label_scores), key=lambda x: x[1], reverse=True)
  pred, score = scored[0]
  if self.threshold is not None and score < self.threshold:
      pred = self.null_label
  predicted_scores.append(scored)
  predicted_labels.append(pred)
  \<close>
  It yields the label and the ranked list that the two \<^verbatim>\<open>append\<close>s add; \<^verbatim>\<open>scored[0]\<close> on an
  empty list is an \<^verbatim>\<open>IndexError\<close>.
\<close>

definition predict_row ::
  "('e, 's::linorder) ZeroShotClassifier \<Rightarrow> 's list \<Rightarrow> py_error + (string \<times> (string \<times> 's) list)" where
  "predict_row self label_scores =
     (let scored = sorted_reverse snd (zip (labels self) label_scores) in
      case scored of
        [] \<Rightarrow> Inl IndexError
      | (pred, score) # _ \<Rightarrow>
          (case threshold self of
             None \<Rightarrow> Inr (pred, scored)
           | Some t \<Rightarrow> Inr (if score < t then null_label self else pred, scored)))"

text \<open>
  The loop \<^verbatim>\<open>for i in range(input_embeddings.shape[0])\<close>, over the indices that remain, with
  the two accumulators \<^verbatim>\<open>predicted_labels\<close> and \<^verbatim>\<open>predicted_scores\<close>. \<^verbatim>\<open>S[i]\<close> beyond the
  rows of \<open>S\<close> is an \<^verbatim>\<open>IndexError\<close> (it happens for a one-dimensional input of more than
  one entry, where \<open>S\<close> has one row).
\<close>

fun predict_loop ::
  "('e, 's::linorder) ZeroShotClassifier \<Rightarrow> 's list list \<Rightarrow> nat list \<Rightarrow> string list
     \<Rightarrow> (string \<times> 's) list list \<Rightarrow> py_error + (string list \<times> (string \<times> 's) list list)" where
  "predict_loop self S [] predicted_labels predicted_scores =
     Inr (predicted_labels, predicted_scores)"
| "predict_loop self S (i # rest) predicted_labels predicted_scores =
     (if i < length S
      then (case predict_row self (S ! i) of
              Inl e \<Rightarrow> Inl e
            | Inr (pred, scored) \<Rightarrow>
                predict_loop self S rest (predicted_labels @ [pred]) (predicted_scores @ [scored]))
      else Inl IndexError)"

text \<open>
  \<^verbatim>\<open>
  if input_embeddings is None:
      input_embeddings = self.model.encode(input_texts)
  \<close>
  With \<^verbatim>\<open>self.model\<close> left at \<^verbatim>\<open>None\<close> the attribute access \<^verbatim>\<open>.encode\<close> is an
  \<^verbatim>\<open>AttributeError\<close>.
\<close>

definition input_rows ::
  "('e, 's) ZeroShotClassifier \<Rightarrow> string list option \<Rightarrow> 'e ndarray option
     \<Rightarrow> py_error + 'e ndarray" where
  "input_rows self input_texts input_embeddings =
     (case input_embeddings of
        Some X \<Rightarrow> Inr X
      | None \<Rightarrow>
          (case model self of
             None \<Rightarrow> Inl AttributeError
           | Some m \<Rightarrow> m input_texts))"

text \<open>
  \<^verbatim>\<open>
  def predict(self, input_texts=None, input_embeddings=None, output_scores=False):
      ...
      S = util.pytorch_cos_sim(input_embeddings, self.label_embeddings)
      predicted_labels = []
      predicted_scores = []
      for i in range(input_embeddings.shape[0]): ...
      if output_scores:
          return predicted_labels, predicted_scores
      else:
          return predicted_labels
  \<close>
\<close>

definition predict ::
  "('e \<Rightarrow> 'e \<Rightarrow> 's) \<Rightarrow> ('e, 's::linorder) ZeroShotClassifier \<Rightarrow> string list option
     \<Rightarrow> 'e ndarray option \<Rightarrow> bool
     \<Rightarrow> (py_error + 's prediction) \<times> ('e, 's) ZeroShotClassifier" where
  "predict sim self input_texts input_embeddings output_scores =
     (case input_rows self input_texts input_embeddings of
        Inl e \<Rightarrow> (Inl e, self)
      | Inr X \<Rightarrow>
          (case pytorch_cos_sim sim X (label_embeddings self) of
             Inl e \<Rightarrow> (Inl e, self)
           | Inr S \<Rightarrow>
               (case predict_loop self S [0..<shape0 X] [] [] of
                  Inl e \<Rightarrow> (Inl e, self)
                | Inr (predicted_labels, predicted_scores) \<Rightarrow>
                    (Inr (if output_scores
                          then LabelsAndScores predicted_labels predicted_scores
                          else Labels predicted_labels), self))))"

section \<open>The dataset loader\<close>

text \<open>
  A file's text is a \<open>string\<close>, after the newline translation of Python's text mode; the
  characters are the code points below 256. \<^verbatim>\<open>list(f)\<close> cuts the text after every newline and
  keeps the newline at the end of each line.
\<close>

fun file_lines :: "string \<Rightarrow> string list" where
  "file_lines [] = []"
| "file_lines (c # cs) =
     (if c = CHR 0x0A then [c] # file_lines cs
      else (case file_lines cs of
              [] \<Rightarrow> [[c]]
            | l # ls \<Rightarrow> (c # l) # ls))"

text \<open>\<^verbatim>\<open>str.isspace\<close> on the code points below 256, and \<^verbatim>\<open>str.strip()\<close>.\<close>

definition isspace :: "char \<Rightarrow> bool" where
  "isspace c \<longleftrightarrow>
     c \<in> {CHR 0x09, CHR 0x0A, CHR 0x0B, CHR 0x0C, CHR 0x0D, CHR 0x1C, CHR 0x1D, CHR 0x1E,
          CHR 0x1F, CHR 0x20, CHR 0x85, CHR 0xA0}"

definition strip :: "string \<Rightarrow> string" where
  "strip s = rev (dropWhile isspace (rev (dropWhile isspace s)))"

text \<open>\<^verbatim>\<open>s.split(sep)\<close> for a one-character separator: every occurrence cuts, also at the ends.\<close>

fun str_split :: "char \<Rightarrow> string \<Rightarrow> string list" where
  "str_split sep [] = [[]]"
| "str_split sep (c # cs) =
     (if c = sep then [] # str_split sep cs
      else (case str_split sep cs of
              [] \<Rightarrow> [[c]]
            | w # ws \<Rightarrow> (c # w) # ws))"

text \<open>
  \<^verbatim>\<open>
  def read_dataset(path):
      with open(path) as f:
          dataset = []
          for line in list(f)[1:]:
              id, text, label = line.strip().split("\t")
              item = {"id": id, "text": text, "label": label}
              dataset.append(item)
      return dataset
  \<close>
  A dict is an association list in insertion order. The unpacking of anything but three
  fields is a \<^verbatim>\<open>ValueError\<close>; a path that cannot be opened is an \<^verbatim>\<open>OSError\<close>.
\<close>

type_synonym item = "(string \<times> string) list"

definition make_item :: "string \<Rightarrow> string \<Rightarrow> string \<Rightarrow> item" where
  "make_item i t l = [(''id'', i), (''text'', t), (''label'', l)]"

fun read_dataset_loop :: "string list \<Rightarrow> item list \<Rightarrow> py_error + item list" where
  "read_dataset_loop [] dataset = Inr dataset"
| "read_dataset_loop (line # rest) dataset =
     (case str_split CHR 0x09 (strip line) of
        [i, t, l] \<Rightarrow> read_dataset_loop rest (dataset @ [make_item i t l])
      | _ \<Rightarrow> Inl ValueError)"

definition read_dataset :: "(string \<Rightarrow> string option) \<Rightarrow> string \<Rightarrow> py_error + item list" where
  "read_dataset fs path =
     (case fs path of
        None \<Rightarrow> Inl OSError
      | Some content \<Rightarrow> read_dataset_loop (drop 1 (file_lines content)) [])"

section \<open>Vocabulary of the properties\<close>

text \<open>
  Index \<open>j\<close> is the first position of the greatest entry of \<open>scores\<close>: no entry is greater,
  and every entry before it is strictly smaller.
\<close>

definition first_max_index :: "'s::linorder list \<Rightarrow> nat \<Rightarrow> bool" where
  "first_max_index scores j \<longleftrightarrow>
     j < length scores \<and> (\<forall>k<length scores. scores ! k \<le> scores ! j) \<and> (\<forall>k<j. scores ! k < scores ! j)"

text \<open>
  A small instance, after the baseline notebook's last cells: embeddings are unit vectors of
  the plane, whose cosine similarity is their inner product. Like the library's, the
  encoder returns a matrix with one row per text, and the one-dimensional empty array for
  an empty list of texts.
\<close>

definition ex_sim :: "real \<times> real \<Rightarrow> real \<times> real \<Rightarrow> real" where
  "ex_sim a b = fst a * fst b + snd a * snd b"

definition ex_embed :: "string \<Rightarrow> real \<times> real" where
  "ex_embed t =
     (if t = ''earthquake'' then (1, 0)
      else if t = ''wildfire'' then (0, 1)
      else if t = ''floods'' then (-1, 0)
      else if t = ''tremor'' then (4/5, 3/5)
      else (0, -1))"

definition ex_model :: "(real \<times> real) encoder" where
  "ex_model txt =
     (case txt of
        None \<Rightarrow> Inl (LibraryError ''encode'')
      | Some ts \<Rightarrow> Inr (if ts = [] then Array1 0 (0, 0) else Array2 2 (map ex_embed ts)))"

definition ex_labels :: "string list" where
  "ex_labels = [''EARTHQUAKE'', ''WILDFIRE'', ''FLOODS'']"

definition ex_descriptions :: "string list" where
  "ex_descriptions = [''earthquake'', ''wildfire'', ''floods'']"

definition ex_E :: "(real \<times> real) list" where
  "ex_E = [(1, 0), (0, 1), (-1, 0)]"

definition ex_classifier :: "real option \<Rightarrow> (real \<times> real, real) ZeroShotClassifier" where
  "ex_classifier t =
     \<lparr> model = Some ex_model, labels = ex_labels, label_embeddings = Some (Array2 2 ex_E),
       threshold = t, null_label = ''OTHER'' \<rparr>"

definition ex_texts :: "string list" where
  "ex_texts = [''tremor'', ''firearms'']"

definition ex_X :: "(real \<times> real) list" where
  "ex_X = [(4/5, 3/5), (0, -1)]"

text \<open>
  A second instance, after the baseline notebook's taxonomy, in which \<^verbatim>\<open>OTHER\<close> is itself
  one of the labels while the null label keeps its default \<^verbatim>\<open>"OTHER"\<close>.
\<close>

definition ex_other :: "(real \<times> real, real) ZeroShotClassifier" where
  "ex_other =
     \<lparr> model = Some ex_model, labels = [''OTHER'', ''FLOODS''],
       label_embeddings = Some (Array2 2 [(0, -1), (-1, 0)]),
       threshold = Some (3/10), null_label = ''OTHER'' \<rparr>"

text \<open>The classifier after \<^verbatim>\<open>train([], [])\<close>: no label, and the empty array of shape \<^verbatim>\<open>(0,)\<close>.\<close>

definition ex_empty :: "(real \<times> real, real) ZeroShotClassifier" where
  "ex_empty =
     \<lparr> model = Some ex_model, labels = [], label_embeddings = Some (Array1 0 (0, 0)),
       threshold = None, null_label = ''OTHER'' \<rparr>"

text \<open>
  Two more encoders: one that sends every text to the same vector, and one that differs
  from \<open>ex_model\<close> on the descriptions only.
\<close>

definition ex_model2 :: "(real \<times> real) encoder" where
  "ex_model2 txt =
     (case txt of
        None \<Rightarrow> Inl (LibraryError ''encode'')
      | Some ts \<Rightarrow> Inr (if ts = [] then Array1 0 (0, 0) else Array2 2 (map (\<lambda>t. (0, 1)) ts)))"

definition ex_model3 :: "(real \<times> real) encoder" where
  "ex_model3 txt =
     (if txt = Some ex_descriptions then Inl (LibraryError ''descriptions'') else ex_model txt)"

text \<open>
  Three files for the loader, with tabs and newlines written out: a well-formed one, one
  whose last line has two fields only, and one whose only line after the header ends with a
  tab, so that it has four fields as it stands and three once stripped.
\<close>

definition ex_file :: string where
  "ex_file =
     ''id'' @ [CHR 0x09] @ ''text'' @ [CHR 0x09] @ ''label'' @ [CHR 0x0A]
     @ ''1'' @ [CHR 0x09] @ ''quake'' @ [CHR 0x09] @ ''EARTHQUAKE'' @ [CHR 0x0A]
     @ ''2'' @ [CHR 0x09] @ ''flood'' @ [CHR 0x09] @ ''FLOODS'' @ [CHR 0x0A]"

definition ex_bad_file :: string where
  "ex_bad_file =
     ''id'' @ [CHR 0x09] @ ''text'' @ [CHR 0x09] @ ''label'' @ [CHR 0x0A]
     @ ''1'' @ [CHR 0x09] @ ''quake'' @ [CHR 0x09] @ ''EARTHQUAKE'' @ [CHR 0x0A]
     @ ''2'' @ [CHR 0x09] @ ''flood'' @ [CHR 0x0A]"

definition ex_repaired_line :: string where
  "ex_repaired_line =
     ''1'' @ [CHR 0x09] @ ''quake'' @ [CHR 0x09] @ ''EARTHQUAKE'' @ [CHR 0x09, CHR 0x0A]"

definition ex_repaired_file :: string where
  "ex_repaired_file =
     ''id'' @ [CHR 0x09] @ ''text'' @ [CHR 0x09] @ ''label'' @ [CHR 0x0A] @ ex_repaired_line"

definition ex_fs :: "string \<Rightarrow> string option" where
  "ex_fs path =
     (if path = ''test.tsv'' then Some ex_file
      else if path = ''bad.tsv'' then Some ex_bad_file
      else if path = ''repaired.tsv'' then Some ex_repaired_file
      else None)"

section \<open>Auxiliary facts\<close>

subsection \<open>The descending stable sort\<close>

lemma length_sorted_reverse: "length (sorted_reverse key xs) = length xs"
  by (simp add: sorted_reverse_def)

lemma mset_sorted_reverse: "mset (sorted_reverse key xs) = mset xs"
  by (simp add: sorted_reverse_def)

lemma set_sorted_reverse: "set (sorted_reverse key xs) = set xs"
  by (simp add: sorted_reverse_def)

lemma sorted_reverse_Nil_iff: "sorted_reverse key xs = [] \<longleftrightarrow> xs = []"
  using length_sorted_reverse [of key xs] by (metis length_0_conv)

lemma sorted_reverse_descending:
  "sorted_wrt (\<lambda>a b. key b \<le> key a) (sorted_reverse key xs)"
proof -
  have "sorted (map key (sort_key key (rev xs)))"
    by (rule sorted_sort_key)
  then have "sorted_wrt (\<lambda>a b. key a \<le> key b) (sort_key key (rev xs))"
    by (simp add: sorted_map)
  then show ?thesis
    by (simp add: sorted_reverse_def sorted_wrt_rev)
qed

lemma sorted_reverse_stable:
  "filter (\<lambda>y. key y = k) (sorted_reverse key xs) = filter (\<lambda>y. key y = k) xs"
  by (simp add: sorted_reverse_def rev_filter [symmetric] sort_key_stable)

lemma filter_Cons_first:
  "filter P xs = a # r \<Longrightarrow> \<exists>j<length xs. xs ! j = a \<and> (\<forall>i<j. \<not> P (xs ! i))"
proof (induction xs)
  case Nil
  then show ?case by simp
next
  case (Cons x xs)
  show ?case
  proof (cases "P x")
    case True
    with Cons.prems have "x = a" by simp
    then show ?thesis by (intro exI [of _ 0]) simp
  next
    case False
    with Cons.prems have "filter P xs = a # r" by simp
    from Cons.IH [OF this] obtain j where j: "j < length xs" "xs ! j = a" "\<forall>i<j. \<not> P (xs ! i)"
      by blast
    show ?thesis
    proof (intro exI [of _ "Suc j"] conjI allI impI)
      fix i assume "i < Suc j"
      then show "\<not> P ((x # xs) ! i)" using False j(3) by (cases i) auto
    qed (use j in auto)
  qed
qed

lemma sorted_reverse_head:
  assumes "sorted_reverse key xs = a # rest"
  shows "\<exists>j<length xs. xs ! j = a \<and> (\<forall>i<length xs. key (xs ! i) \<le> key a)
           \<and> (\<forall>i<j. key (xs ! i) < key a)"
proof -
  have desc: "sorted_wrt (\<lambda>a b. key b \<le> key a) (a # rest)"
    using sorted_reverse_descending [of key xs] assms by simp
  have "set xs = set (a # rest)"
    using set_sorted_reverse [of key xs] assms by simp
  with desc have top: "\<forall>y\<in>set xs. key y \<le> key a"
    by auto
  have "filter (\<lambda>y. key y = key a) xs = filter (\<lambda>y. key y = key a) (a # rest)"
    using sorted_reverse_stable [of key "key a" xs] assms by simp
  then have "filter (\<lambda>y. key y = key a) xs = a # filter (\<lambda>y. key y = key a) rest"
    by simp
  from filter_Cons_first [OF this] obtain j where
    j: "j < length xs" "xs ! j = a" "\<forall>i<j. key (xs ! i) \<noteq> key a"
    by blast
  have "\<forall>i<j. key (xs ! i) < key a"
  proof (intro allI impI)
    fix i assume "i < j"
    with j(1) have "xs ! i \<in> set xs" by simp
    with top have "key (xs ! i) \<le> key a" by blast
    with j(3) \<open>i < j\<close> show "key (xs ! i) < key a" by (simp add: order_less_le)
  qed
  moreover have "\<forall>i<length xs. key (xs ! i) \<le> key a"
    using top by simp
  ultimately show ?thesis using j by blast
qed

subsection \<open>One row, the loop, and the whole of \<^verbatim>\<open>predict\<close>\<close>

lemma predict_state: "snd (predict sim self input_texts input_embeddings output_scores) = self"
  by (simp add: predict_def split: sum.splits prod.splits)

lemma predict_row_Nil:
  "zip (labels self) r = [] \<Longrightarrow> predict_row self r = Inl IndexError"
  unfolding predict_row_def sorted_reverse_def by (simp del: zip_eq_Nil_iff)

lemma predict_row_Cons:
  assumes "sorted_reverse snd (zip (labels self) r) = (p, s) # rest"
  shows "predict_row self r =
           Inr (case threshold self of None \<Rightarrow> p | Some t \<Rightarrow> if s < t then null_label self else p,
                (p, s) # rest)"
  using assms by (simp add: predict_row_def split: option.splits)

lemma predict_row_Inl:
  "predict_row self r = Inl e \<Longrightarrow> e = IndexError \<and> zip (labels self) r = []"
  by (auto simp: predict_row_def Let_def sorted_reverse_Nil_iff split: list.splits option.splits)

lemma predict_row_scored:
  "predict_row self r = Inr (p, sc) \<Longrightarrow> sc = sorted_reverse snd (zip (labels self) r) \<and> sc \<noteq> []"
  by (auto simp: predict_row_def Let_def split: list.splits option.splits)

lemma zip_top:
  assumes "sorted_reverse snd (zip ls sc) = (p, s) # rest"
  shows "\<exists>j. first_max_index (take (length ls) sc) j \<and> p = ls ! j \<and> s = sc ! j"
proof -
  let ?zs = "zip ls sc"
  from sorted_reverse_head [OF assms] obtain j where
    j: "j < length ?zs" "?zs ! j = (p, s)"
       "\<forall>i<length ?zs. snd (?zs ! i) \<le> s" "\<forall>i<j. snd (?zs ! i) < s"
    by auto
  from j(1) have jl: "j < length ls" "j < length sc" by simp_all
  with j(2) have ps: "p = ls ! j" "s = sc ! j" by simp_all
  have "first_max_index (take (length ls) sc) j"
    unfolding first_max_index_def
  proof (intro conjI allI impI)
    show "j < length (take (length ls) sc)" using jl by simp
  next
    fix k assume k: "k < length (take (length ls) sc)"
    then have "k < length ?zs" by simp
    with j(3) have "snd (?zs ! k) \<le> s" by blast
    with k jl show "take (length ls) sc ! k \<le> take (length ls) sc ! j"
      by (simp add: ps)
  next
    fix k assume k: "k < j"
    with j(4) have "snd (?zs ! k) < s" by blast
    with k jl show "take (length ls) sc ! k < take (length ls) sc ! j"
      by (simp add: ps)
  qed
  with ps show ?thesis by blast
qed

lemma predict_loop_Inr:
  "predict_loop self S idx pl ps = Inr (pl', ps') \<Longrightarrow>
     \<exists>a b. pl' = pl @ a \<and> ps' = ps @ b \<and> length a = length idx \<and> length b = length idx
       \<and> (\<forall>k<length idx. idx ! k < length S
              \<and> predict_row self (S ! (idx ! k)) = Inr (a ! k, b ! k))"
proof (induction idx arbitrary: pl ps)
  case Nil
  then show ?case by simp
next
  case (Cons i idx)
  from Cons.prems have i: "i < length S"
    by (simp split: if_splits)
  with Cons.prems obtain p sc where row: "predict_row self (S ! i) = Inr (p, sc)"
    and rest: "predict_loop self S idx (pl @ [p]) (ps @ [sc]) = Inr (pl', ps')"
    by (auto split: sum.splits)
  from Cons.IH [OF rest] obtain a b where ab:
    "pl' = (pl @ [p]) @ a" "ps' = (ps @ [sc]) @ b" "length a = length idx" "length b = length idx"
    "\<forall>k<length idx. idx ! k < length S \<and> predict_row self (S ! (idx ! k)) = Inr (a ! k, b ! k)"
    by blast
  have "\<forall>k<length (i # idx). (i # idx) ! k < length S
          \<and> predict_row self (S ! ((i # idx) ! k)) = Inr ((p # a) ! k, (sc # b) ! k)"
  proof (intro allI impI)
    fix k assume "k < length (i # idx)"
    then show "(i # idx) ! k < length S
          \<and> predict_row self (S ! ((i # idx) ! k)) = Inr ((p # a) ! k, (sc # b) ! k)"
      using i row ab(5) by (cases k) auto
  qed
  with ab show ?case
    by (intro exI [of _ "p # a"] exI [of _ "sc # b"]) simp
qed

lemma predict_loop_total:
  "\<forall>i\<in>set idx. i < length S \<and> zip (labels self) (S ! i) \<noteq> []
     \<Longrightarrow> \<exists>y. predict_loop self S idx pl ps = Inr y"
proof (induction idx arbitrary: pl ps)
  case Nil
  then show ?case by simp
next
  case (Cons i idx)
  then have i: "i < length S" and "zip (labels self) (S ! i) \<noteq> []" by simp_all
  then obtain y where "predict_row self (S ! i) = Inr y"
    using predict_row_Inl [of self "S ! i"] by (cases "predict_row self (S ! i)") auto
  moreover obtain p sc where "y = (p, sc)" by (cases y)
  ultimately show ?case using i Cons.IH [of "pl @ [p]" "ps @ [sc]"] Cons.prems by simp
qed

lemma predict_loop_fails:
  "i < length S \<Longrightarrow> zip (labels self) (S ! i) = []
     \<Longrightarrow> predict_loop self S (i # rest) pl ps = Inl IndexError"
  by (simp add: predict_row_Nil)

lemma predict_unfold_gen:
  assumes "input_rows self txt emb = Inr X"
    and "pytorch_cos_sim sim X (label_embeddings self) = Inr S"
  shows "predict sim self txt emb os =
           (case predict_loop self S [0..<shape0 X] [] [] of
              Inl e \<Rightarrow> (Inl e, self)
            | Inr (pl, ps) \<Rightarrow> (Inr (if os then LabelsAndScores pl ps else Labels pl), self))"
  using assms by (simp add: predict_def)

lemma predict_unfold:
  assumes "input_rows self txt emb = Inr (Array2 d X)"
    and "label_embeddings self = Some (Array2 d E)"
  shows "predict sim self txt emb os =
           (case predict_loop self (map (\<lambda>x. map (sim x) E) X) [0..<length X] [] [] of
              Inl e \<Rightarrow> (Inl e, self)
            | Inr (pl, ps) \<Rightarrow> (Inr (if os then LabelsAndScores pl ps else Labels pl), self))"
  using assms by (simp add: predict_def pytorch_cos_sim_def)

lemma zip_scores_nonempty:
  "ls \<noteq> [] \<Longrightarrow> E \<noteq> [] \<Longrightarrow> zip ls (map f E) \<noteq> []"
  by (cases ls; cases E) simp_all

lemma predict_rows:
  assumes rows: "input_rows self txt emb = Inr (Array2 d X)"
    and emb: "label_embeddings self = Some (Array2 d E)"
    and ne: "labels self \<noteq> []" "E \<noteq> []"
  shows "\<exists>pl ps.
           (\<forall>os. predict sim self txt emb os =
                   (Inr (if os then LabelsAndScores pl ps else Labels pl), self))
         \<and> length pl = length X \<and> length ps = length X
         \<and> (\<forall>i<length X.
               ps ! i = sorted_reverse snd (zip (labels self) (map (sim (X ! i)) E))
             \<and> (\<exists>j. first_max_index (take (length (labels self)) (map (sim (X ! i)) E)) j
                   \<and> ps ! i \<noteq> []
                   \<and> hd (ps ! i) = (labels self ! j, sim (X ! i) (E ! j))
                   \<and> pl ! i = (case threshold self of
                                 None \<Rightarrow> labels self ! j
                               | Some t \<Rightarrow> if sim (X ! i) (E ! j) < t then null_label self
                                           else labels self ! j)))"
proof -
  let ?S = "map (\<lambda>x. map (sim x) E) X"
  have "\<forall>i\<in>set [0..<length X]. i < length ?S \<and> zip (labels self) (?S ! i) \<noteq> []"
    using ne by (auto simp: zip_scores_nonempty simp del: zip_eq_Nil_iff)
  from predict_loop_total [OF this, of "[]" "[]"] obtain pl ps
    where loop: "predict_loop self ?S [0..<length X] [] [] = Inr (pl, ps)"
    by auto
  from predict_loop_Inr [OF loop] have len: "length pl = length X" "length ps = length X"
    and row: "\<forall>i<length X. predict_row self (map (sim (X ! i)) E) = Inr (pl ! i, ps ! i)"
    by auto
  have "\<forall>os. predict sim self txt emb os =
               (Inr (if os then LabelsAndScores pl ps else Labels pl), self)"
    using predict_unfold [OF rows emb, of sim] loop by simp
  moreover have "\<forall>i<length X.
        ps ! i = sorted_reverse snd (zip (labels self) (map (sim (X ! i)) E))
      \<and> (\<exists>j. first_max_index (take (length (labels self)) (map (sim (X ! i)) E)) j
            \<and> ps ! i \<noteq> []
            \<and> hd (ps ! i) = (labels self ! j, sim (X ! i) (E ! j))
            \<and> pl ! i = (case threshold self of
                          None \<Rightarrow> labels self ! j
                        | Some t \<Rightarrow> if sim (X ! i) (E ! j) < t then null_label self
                                    else labels self ! j))"
  proof (intro allI impI)
    fix i assume i: "i < length X"
    let ?r = "map (sim (X ! i)) E"
    from row i have pr: "predict_row self ?r = Inr (pl ! i, ps ! i)" by blast
    from predict_row_scored [OF pr]
    have sc: "ps ! i = sorted_reverse snd (zip (labels self) ?r)" "ps ! i \<noteq> []" by blast+
    have "sorted_reverse snd (zip (labels self) ?r) \<noteq> []"
      using sc(1) [symmetric] sc(2) by simp
    then obtain p s rest where top: "sorted_reverse snd (zip (labels self) ?r) = (p, s) # rest"
      by (cases "sorted_reverse snd (zip (labels self) ?r)") auto
    from zip_top [OF top] obtain j where
      j: "first_max_index (take (length (labels self)) ?r) j" "p = labels self ! j" "s = ?r ! j"
      by blast
    from j(1) have "j < length E" by (simp add: first_max_index_def)
    with j(3) have s: "s = sim (X ! i) (E ! j)" by simp
    from predict_row_Cons [OF top] pr
    have "pl ! i = (case threshold self of None \<Rightarrow> p | Some t \<Rightarrow> if s < t then null_label self else p)"
      by simp
    with j(1,2) s sc top
    show "ps ! i = sorted_reverse snd (zip (labels self) ?r)
      \<and> (\<exists>j. first_max_index (take (length (labels self)) ?r) j
            \<and> ps ! i \<noteq> []
            \<and> hd (ps ! i) = (labels self ! j, sim (X ! i) (E ! j))
            \<and> pl ! i = (case threshold self of
                          None \<Rightarrow> labels self ! j
                        | Some t \<Rightarrow> if sim (X ! i) (E ! j) < t then null_label self
                                    else labels self ! j))"
      by (intro conjI exI [of _ j]) (simp_all split: option.splits)
  qed
  ultimately show ?thesis using len by blast
qed

lemma train_Inr:
  assumes "train g c0 ls ds = (Inr (), self)"
  shows "labels self = ls \<and> model self = model c0 \<and> threshold self = threshold c0
           \<and> null_label self = null_label c0
           \<and> (\<exists>gm E. g = Some gm \<and> gm (Some ds) = Inr E \<and> label_embeddings self = Some E)"
  using assms by (auto simp: train_def Let_def split: option.splits sum.splits)


lemma first_max_index_Max:
  assumes "first_max_index scores j"
  shows "scores ! j = Max (set scores)"
proof (rule sym, rule Max_eqI)
  show "finite (set scores)" by simp
next
  fix y assume "y \<in> set scores"
  then obtain k where "k < length scores" "scores ! k = y"
    by (auto simp: in_set_conv_nth)
  with assms show "y \<le> scores ! j" by (auto simp: first_max_index_def)
next
  from assms show "scores ! j \<in> set scores" by (simp add: first_max_index_def)
qed

lemma first_max_index_take:
  "first_max_index (take n (map f E)) j \<Longrightarrow> j < n \<and> j < length E \<and> take n (map f E) ! j = f (E ! j)"
  by (simp add: first_max_index_def)

lemma set_sorted_zip_labels:
  "fst ` set (sorted_reverse snd (zip ls sc)) \<subseteq> set ls"
  by (auto simp: set_sorted_reverse dest: set_zip_leftD)

lemma input_rows_threshold:
  "input_rows (self\<lparr>threshold := t\<rparr>) txt emb = input_rows self txt emb"
  by (simp add: input_rows_def split: option.splits)

lemma predict_Inr_elim:
  assumes "fst (predict sim self txt emb os) = Inr out"
  shows "\<exists>X S pl ps. input_rows self txt emb = Inr X
           \<and> pytorch_cos_sim sim X (label_embeddings self) = Inr S
           \<and> predict_loop self S [0..<shape0 X] [] [] = Inr (pl, ps)
           \<and> out = (if os then LabelsAndScores pl ps else Labels pl)"
  using assms
  by (auto simp: predict_def split: sum.splits prod.splits if_splits)

lemma predict_no_embeddings:
  "label_embeddings self = None \<Longrightarrow> \<exists>e. fst (predict sim self txt emb os) = Inl e"
  by (simp add: predict_def pytorch_cos_sim_def split: sum.splits)

lemma predict_row_threshold_mono:
  assumes "threshold self = Some t" and "t \<le> t'"
    and "predict_row self r = Inr (p, sc)"
  shows "\<exists>p'. predict_row (self\<lparr>threshold := Some t'\<rparr>) r = Inr (p', sc)
           \<and> (p = null_label self \<longrightarrow> p' = null_label self)
           \<and> (p \<noteq> null_label self \<and> p' \<noteq> null_label self \<longrightarrow> p' = p)"
  using assms
  by (auto simp: predict_row_def Let_def split: list.splits if_splits)

lemma predict_row_model: "predict_row (self\<lparr>model := m\<rparr>) r = predict_row self r"
  by (simp add: predict_row_def Let_def split: list.splits option.splits)

lemma predict_loop_model:
  "predict_loop (self\<lparr>model := m\<rparr>) S idx pl ps = predict_loop self S idx pl ps"
  by (induction idx arbitrary: pl ps)
    (simp_all add: predict_row_model split: sum.splits prod.splits)

lemma predict_result_model:
  assumes "input_rows (self\<lparr>model := m\<rparr>) txt emb = input_rows self txt emb"
  shows "fst (predict sim (self\<lparr>model := m\<rparr>) txt emb os) = fst (predict sim self txt emb os)"
  using assms
  by (simp add: predict_def predict_loop_model split: sum.splits prod.splits)

lemma rows_of_nonempty: "0 < shape0 A \<Longrightarrow> rows_of A \<noteq> []"
  by (cases A) auto

lemma predict_no_labels:
  assumes lab: "labels c = []"
    and emb: "label_embeddings c = Some B"
    and rows: "input_rows c txt e = Inr A"
    and pos: "0 < shape0 A"
  shows "fst (predict sim c txt e os)
           = (if ncols A = ncols B then Inl IndexError else Inl RuntimeError)"
proof (cases "ncols A = ncols B")
  case False
  then show ?thesis using emb rows by (simp add: predict_def pytorch_cos_sim_def)
next
  case True
  let ?S = "map (\<lambda>x. map (sim x) (rows_of B)) (rows_of A)"
  have S: "pytorch_cos_sim sim A (label_embeddings c) = Inr ?S"
    using True emb by (simp add: pytorch_cos_sim_def)
  have len: "0 < length ?S" using rows_of_nonempty [OF pos] by simp
  have idx: "[0..<shape0 A] = 0 # [1..<shape0 A]"
    using pos by (simp add: upt_conv_Cons)
  have "zip (labels c) (?S ! 0) = []" using lab by simp
  from predict_loop_fails [OF len this, of "[1..<shape0 A]" "[]" "[]"]
  have "predict_loop c ?S [0..<shape0 A] [] [] = Inl IndexError"
    using idx by simp
  with predict_unfold_gen [OF rows S, of os] True show ?thesis by simp
qed

subsection \<open>The loop of the loader\<close>

lemma length_3_conv: "length xs = 3 \<longleftrightarrow> (\<exists>a b c. xs = [a, b, c])"
  by (auto simp: numeral_3_eq_3 length_Suc_conv)

lemma read_dataset_loop_bad:
  "\<exists>l\<in>set lines. length (str_split CHR 0x09 (strip l)) \<noteq> 3
     \<Longrightarrow> read_dataset_loop lines dataset = Inl ValueError"
proof (induction lines arbitrary: dataset)
  case Nil
  then show ?case by simp
next
  case (Cons line rest)
  show ?case
  proof (cases "length (str_split CHR 0x09 (strip line)) = 3")
    case True
    then obtain a b c where f: "str_split CHR 0x09 (strip line) = [a, b, c]"
      by (auto simp: length_3_conv)
    from True Cons.prems have "\<exists>l\<in>set rest. length (str_split CHR 0x09 (strip l)) \<noteq> 3"
      by auto
    from Cons.IH [OF this] f show ?thesis by simp
  next
    case False
    then have "\<nexists>a b c. str_split CHR 0x09 (strip line) = [a, b, c]"
      by (simp add: length_3_conv)
    then show ?thesis by (auto split: list.splits)
  qed
qed

lemma read_dataset_loop_ok:
  "\<forall>l\<in>set lines. length (str_split CHR 0x09 (strip l)) = 3
     \<Longrightarrow> \<exists>ds. read_dataset_loop lines dataset = Inr (dataset @ ds) \<and> length ds = length lines
           \<and> (\<forall>k<length lines. \<exists>i t l. str_split CHR 0x09 (strip (lines ! k)) = [i, t, l]
                  \<and> ds ! k = [(''id'', i), (''text'', t), (''label'', l)])"
proof (induction lines arbitrary: dataset)
  case Nil
  then show ?case by simp
next
  case (Cons line rest)
  then obtain a b c where f: "str_split CHR 0x09 (strip line) = [a, b, c]"
    by (auto simp: length_3_conv)
  from Cons.prems have "\<forall>l\<in>set rest. length (str_split CHR 0x09 (strip l)) = 3" by simp
  from Cons.IH [OF this, of "dataset @ [make_item a b c]"] obtain ds where
    ds: "read_dataset_loop rest (dataset @ [make_item a b c])
           = Inr ((dataset @ [make_item a b c]) @ ds)"
      "length ds = length rest"
      "\<forall>k<length rest. \<exists>i t l. str_split CHR 0x09 (strip (rest ! k)) = [i, t, l]
                  \<and> ds ! k = [(''id'', i), (''text'', t), (''label'', l)]"
    by blast
  have "\<forall>k<length (line # rest). \<exists>i t l. str_split CHR 0x09 (strip ((line # rest) ! k)) = [i, t, l]
                  \<and> (make_item a b c # ds) ! k = [(''id'', i), (''text'', t), (''label'', l)]"
  proof (intro allI impI)
    fix k assume "k < length (line # rest)"
    then show "\<exists>i t l. str_split CHR 0x09 (strip ((line # rest) ! k)) = [i, t, l]
                  \<and> (make_item a b c # ds) ! k = [(''id'', i), (''text'', t), (''label'', l)]"
      using f ds(3) by (cases k) (auto simp: make_item_def)
  qed
  with f ds(1,2) show ?case
    by (intro exI [of _ "make_item a b c # ds"]) simp
qed

subsection \<open>Evaluating the instance\<close>

lemmas ex_defs = ex_sim_def ex_embed_def ex_model_def ex_labels_def ex_descriptions_def ex_E_def
  ex_classifier_def ex_texts_def ex_X_def

lemmas predict_defs = predict_def input_rows_def pytorch_cos_sim_def predict_row_def
  sorted_reverse_def

lemma ex_train:
  "train (Some ex_model) (init (Some ex_model) t ''OTHER'') ex_labels ex_descriptions
     = (Inr (), ex_classifier t)"
  by (simp add: train_def init_def ex_defs)

lemma ex_embeddings: "label_embeddings (ex_classifier t) = Some (Array2 2 ex_E)"
  by (simp add: ex_classifier_def)

lemma ex_threshold: "threshold (ex_classifier t) = t"
  by (simp add: ex_classifier_def)

lemma ex_rows: "input_rows (ex_classifier t) (Some ex_texts) None = Inr (Array2 2 ex_X)"
  by (simp add: input_rows_def ex_defs)

lemma ex_nonempty: "ex_labels \<noteq> []" "ex_E \<noteq> []" "length ex_labels \<le> length ex_E"
  by (simp_all add: ex_labels_def ex_E_def)

section \<open>The claims\<close>

text \<open>
  In the claims about a trained classifier the label embeddings are a matrix \<open>Array2 d E\<close>,
  which is what the encoder returns for a non-empty list of descriptions, and the batch is
  a matrix \<open>Array2 d X\<close> with the same number of columns, given as such or encoded from a
  non-empty list of texts. With other shapes \<^verbatim>\<open>util.pytorch_cos_sim\<close> raises, or the loop
  indexes beyond the rows of the similarities; C7 states what happens then under an empty
  list of labels.
\<close>

text \<open>
  \<^bold>\<open>C1.\<close> A classifier trained on non-empty lists of labels and descriptions and without a
  threshold answers, for every row of the input, with the trained label whose similarity
  to the row is greatest among the trained labels; among equally similar labels it is the
  one that comes first in the order of training. The call returns (it does not raise), with
  one label per row, whether the rows are given or are encoded from texts, and in both
  output modes. Labels and embedding rows are paired by position, as \<^verbatim>\<open>zip\<close> does.
\<close>

theorem predict_no_threshold_first_max:
  assumes trained: "train g c0 ls ds = (Inr (), self)"
    and emb: "label_embeddings self = Some (Array2 d E)"
    and nonempty: "ls \<noteq> []" "E \<noteq> []"
    and no_threshold: "threshold self = None"
    and rows: "input_rows self input_texts input_embeddings = Inr (Array2 d X)"
  shows "\<exists>out. fst (predict sim self input_texts input_embeddings output_scores) = Inr out
           \<and> length (predicted_labels_of out) = length X
           \<and> (\<forall>i<length X. \<exists>j. first_max_index (take (length ls) (map (sim (X ! i)) E)) j
                  \<and> predicted_labels_of out ! i = ls ! j)"
proof -
  from train_Inr [OF trained] have ls: "labels self = ls" by simp
  have ne: "labels self \<noteq> []" using nonempty ls by simp
  from predict_rows [OF rows emb ne nonempty(2), of sim] obtain pl ps where
    out: "\<forall>os. predict sim self input_texts input_embeddings os =
                 (Inr (if os then LabelsAndScores pl ps else Labels pl), self)"
    and len: "length pl = length X"
    and row0: "\<forall>i<length X.
               ps ! i = sorted_reverse snd (zip (labels self) (map (sim (X ! i)) E))
             \<and> (\<exists>j. first_max_index (take (length (labels self)) (map (sim (X ! i)) E)) j
                   \<and> ps ! i \<noteq> []
                   \<and> hd (ps ! i) = (labels self ! j, sim (X ! i) (E ! j))
                   \<and> pl ! i = (case threshold self of
                                 None \<Rightarrow> labels self ! j
                               | Some t \<Rightarrow> if sim (X ! i) (E ! j) < t then null_label self
                                           else labels self ! j))"
    by blast
  have row: "\<forall>i<length X. \<exists>j. first_max_index (take (length ls) (map (sim (X ! i)) E)) j
                \<and> pl ! i = ls ! j"
  proof (intro allI impI)
    fix i assume "i < length X"
    with row0 obtain j where "first_max_index (take (length (labels self)) (map (sim (X ! i)) E)) j"
      "pl ! i = (case threshold self of
                                 None \<Rightarrow> labels self ! j
                               | Some t \<Rightarrow> if sim (X ! i) (E ! j) < t then null_label self
                                           else labels self ! j)"
      by blast
    then show "\<exists>j. first_max_index (take (length ls) (map (sim (X ! i)) E)) j \<and> pl ! i = ls ! j"
      using no_threshold ls by auto
  qed
  let ?out = "if output_scores then LabelsAndScores pl ps else Labels pl"
  have "fst (predict sim self input_texts input_embeddings output_scores) = Inr ?out"
    using out by simp
  moreover have "predicted_labels_of ?out = pl" by simp
  ultimately show ?thesis using len row
    by (intro exI [of _ ?out]) simp
qed

theorem predict_no_threshold_first_max_witness:
  "train (Some ex_model) (init (Some ex_model) None ''OTHER'') ex_labels ex_descriptions
     = (Inr (), ex_classifier None)
   \<and> label_embeddings (ex_classifier None) = Some (Array2 2 ex_E)
   \<and> ex_labels \<noteq> [] \<and> ex_E \<noteq> []
   \<and> threshold (ex_classifier None) = None
   \<and> input_rows (ex_classifier None) (Some [''tremor'', ''firearms'']) None
       = Inr (Array2 2 [(4/5, 3/5), (0, -1)])
   \<and> fst (predict ex_sim (ex_classifier None) (Some [''tremor'', ''firearms'']) None False)
       = Inr (Labels [''EARTHQUAKE'', ''EARTHQUAKE''])
   \<and> (\<exists>out. fst (predict ex_sim (ex_classifier None) (Some [''tremor'', ''firearms'']) None False)
               = Inr out
          \<and> length (predicted_labels_of out) = length [(4/5, 3/5), (0, -1) :: real \<times> real]
          \<and> (\<forall>i<length [(4/5, 3/5), (0, -1) :: real \<times> real].
                \<exists>j. first_max_index
                      (take (length ex_labels)
                         (map (ex_sim ([(4/5, 3/5), (0, -1)] ! i)) ex_E)) j
                  \<and> predicted_labels_of out ! i = ex_labels ! j))"
proof -
  have h1: "train (Some ex_model) (init (Some ex_model) None ''OTHER'') ex_labels ex_descriptions
     = (Inr (), ex_classifier None)"
    by (simp add: train_def init_def ex_defs)
  have h2: "label_embeddings (ex_classifier None) = Some (Array2 2 ex_E)"
    by (simp add: ex_classifier_def)
  have h3: "ex_labels \<noteq> []" by (simp add: ex_labels_def)
  have h4: "ex_E \<noteq> []" by (simp add: ex_E_def)
  have h5: "threshold (ex_classifier None) = None" by (simp add: ex_classifier_def)
  have h6: "input_rows (ex_classifier None) (Some [''tremor'', ''firearms'']) None
       = Inr (Array2 2 [(4/5, 3/5), (0, -1)])"
    by (simp add: input_rows_def ex_defs)
  have v: "fst (predict ex_sim (ex_classifier None) (Some [''tremor'', ''firearms'']) None False)
       = Inr (Labels [''EARTHQUAKE'', ''EARTHQUAKE''])"
    by (simp add: predict_def input_rows_def pytorch_cos_sim_def predict_row_def
        sorted_reverse_def ex_defs)
  show ?thesis
    using h1 h2 h3 h4 h5 h6 v
      predict_no_threshold_first_max [OF h1 h2 h3 h4 h5 h6, of ex_sim False]
    by blast
qed

text \<open>
  \<^bold>\<open>C2.\<close> Without a restriction on the labels, "the null label exactly when the greatest
  similarity is below the threshold" fails where the null label is itself a trained label:
  the classifier below answers with its null label although the greatest similarity is not
  below the threshold.
\<close>

theorem predict_threshold_counterexample:
  "train (Some ex_model) (init (Some ex_model) (Some (3/10)) ''OTHER'')
       [''OTHER'', ''FLOODS''] [''other'', ''floods''] = (Inr (), ex_other)
   \<and> fst (predict ex_sim ex_other None (Some (Array2 2 [(0, -1)])) False) = Inr (Labels [null_label ex_other])
   \<and> threshold ex_other = Some (3/10)
   \<and> \<not> Max (set (map (ex_sim (0, -1)) [(0, -1), (-1, 0)])) < 3/10"
proof -
  have "train (Some ex_model) (init (Some ex_model) (Some (3/10)) ''OTHER'')
       [''OTHER'', ''FLOODS''] [''other'', ''floods''] = (Inr (), ex_other)"
    by (simp add: train_def init_def ex_other_def ex_model_def ex_embed_def)
  moreover have "fst (predict ex_sim ex_other None (Some (Array2 2 [(0, -1)])) False)
      = Inr (Labels [null_label ex_other])"
    by (simp add: predict_def input_rows_def pytorch_cos_sim_def predict_row_def
        sorted_reverse_def ex_other_def ex_sim_def)
  moreover have "threshold ex_other = Some (3/10)" by (simp add: ex_other_def)
  moreover have "\<not> Max (set (map (ex_sim (0, -1)) [(0, -1), (-1, 0)])) < 3/10"
    by (simp add: ex_sim_def)
  ultimately show ?thesis by blast
qed

text \<open>
  \<^bold>\<open>C2, amended.\<close> A classifier with threshold \<open>t\<close>, trained on non-empty lists, answers for
  every row with its null label if the greatest similarity of the row to the trained labels
  is strictly below \<open>t\<close>, and otherwise with the first trained label of greatest
  similarity. So the answer is the null label exactly when the greatest similarity is
  below \<open>t\<close>, provided the null label is not one of the trained labels.
\<close>

theorem predict_threshold_fallback:
  assumes trained: "train g c0 ls ds = (Inr (), self)"
    and emb: "label_embeddings self = Some (Array2 d E)"
    and nonempty: "ls \<noteq> []" "E \<noteq> []"
    and thr: "threshold self = Some t"
    and rows: "input_rows self input_texts input_embeddings = Inr (Array2 d X)"
  shows "\<exists>out. fst (predict sim self input_texts input_embeddings output_scores) = Inr out
           \<and> length (predicted_labels_of out) = length X
           \<and> (\<forall>i<length X. \<exists>j. first_max_index (take (length ls) (map (sim (X ! i)) E)) j
                  \<and> predicted_labels_of out ! i =
                      (if Max (set (take (length ls) (map (sim (X ! i)) E))) < t
                       then null_label self else ls ! j)
                  \<and> (null_label self \<notin> set ls \<longrightarrow>
                       (predicted_labels_of out ! i = null_label self
                          \<longleftrightarrow> Max (set (take (length ls) (map (sim (X ! i)) E))) < t)))"
proof -
  from train_Inr [OF trained] have ls: "labels self = ls" by simp
  have ne: "labels self \<noteq> []" using nonempty ls by simp
  from predict_rows [OF rows emb ne nonempty(2), of sim] obtain pl ps where
    out: "\<forall>os. predict sim self input_texts input_embeddings os =
                 (Inr (if os then LabelsAndScores pl ps else Labels pl), self)"
    and len: "length pl = length X"
    and row0: "\<forall>i<length X.
               ps ! i = sorted_reverse snd (zip (labels self) (map (sim (X ! i)) E))
             \<and> (\<exists>j. first_max_index (take (length (labels self)) (map (sim (X ! i)) E)) j
                   \<and> ps ! i \<noteq> []
                   \<and> hd (ps ! i) = (labels self ! j, sim (X ! i) (E ! j))
                   \<and> pl ! i = (case threshold self of
                                 None \<Rightarrow> labels self ! j
                               | Some t \<Rightarrow> if sim (X ! i) (E ! j) < t then null_label self
                                           else labels self ! j))"
    by blast
  have row: "\<forall>i<length X. \<exists>j. first_max_index (take (length ls) (map (sim (X ! i)) E)) j
                  \<and> pl ! i =
                      (if Max (set (take (length ls) (map (sim (X ! i)) E))) < t
                       then null_label self else ls ! j)
                  \<and> (null_label self \<notin> set ls \<longrightarrow>
                       (pl ! i = null_label self
                          \<longleftrightarrow> Max (set (take (length ls) (map (sim (X ! i)) E))) < t))"
  proof (intro allI impI)
    fix i assume "i < length X"
    let ?sc = "take (length ls) (map (sim (X ! i)) E)"
    from row0 \<open>i < length X\<close> obtain j where
      j: "first_max_index ?sc j"
      and pli: "pl ! i = (if sim (X ! i) (E ! j) < t then null_label self else ls ! j)"
      using thr ls by auto
    from first_max_index_take [OF j] have jl: "j < length ls" and sj: "?sc ! j = sim (X ! i) (E ! j)"
      by simp_all
    from first_max_index_Max [OF j] sj have mx: "Max (set ?sc) = sim (X ! i) (E ! j)"
      by simp
    from jl have "ls ! j \<in> set ls" by simp
    with pli mx j show "\<exists>j. first_max_index ?sc j
                  \<and> pl ! i = (if Max (set ?sc) < t then null_label self else ls ! j)
                  \<and> (null_label self \<notin> set ls \<longrightarrow> (pl ! i = null_label self \<longleftrightarrow> Max (set ?sc) < t))"
      by (intro exI [of _ j]) auto
  qed
  let ?out = "if output_scores then LabelsAndScores pl ps else Labels pl"
  have "fst (predict sim self input_texts input_embeddings output_scores) = Inr ?out"
    using out by simp
  moreover have "predicted_labels_of ?out = pl" by simp
  ultimately show ?thesis using len row
    by (intro exI [of _ ?out]) simp
qed

theorem predict_threshold_fallback_witness:
  "train (Some ex_model) (init (Some ex_model) (Some (3/10)) ''OTHER'') ex_labels ex_descriptions
     = (Inr (), ex_classifier (Some (3/10)))
   \<and> label_embeddings (ex_classifier (Some (3/10))) = Some (Array2 2 ex_E)
   \<and> ex_labels \<noteq> [] \<and> ex_E \<noteq> []
   \<and> threshold (ex_classifier (Some (3/10))) = Some (3/10)
   \<and> input_rows (ex_classifier (Some (3/10))) (Some ex_texts) None = Inr (Array2 2 ex_X)
   \<and> null_label (ex_classifier (Some (3/10))) \<notin> set ex_labels
   \<and> fst (predict ex_sim (ex_classifier (Some (3/10))) (Some ex_texts) None False)
       = Inr (Labels [''EARTHQUAKE'', ''OTHER''])
   \<and> (\<exists>out. fst (predict ex_sim (ex_classifier (Some (3/10))) (Some ex_texts) None False)
               = Inr out
          \<and> length (predicted_labels_of out) = length ex_X
          \<and> (\<forall>i<length ex_X.
                \<exists>j. first_max_index (take (length ex_labels) (map (ex_sim (ex_X ! i)) ex_E)) j
                  \<and> predicted_labels_of out ! i =
                      (if Max (set (take (length ex_labels) (map (ex_sim (ex_X ! i)) ex_E))) < 3/10
                       then null_label (ex_classifier (Some (3/10))) else ex_labels ! j)
                  \<and> (null_label (ex_classifier (Some (3/10))) \<notin> set ex_labels \<longrightarrow>
                       (predicted_labels_of out ! i = null_label (ex_classifier (Some (3/10)))
                          \<longleftrightarrow> Max (set (take (length ex_labels) (map (ex_sim (ex_X ! i)) ex_E)))
                                < 3/10))))"
proof -
  have n: "null_label (ex_classifier (Some (3/10))) \<notin> set ex_labels"
    by (simp add: ex_classifier_def ex_labels_def)
  have v: "fst (predict ex_sim (ex_classifier (Some (3/10))) (Some ex_texts) None False)
       = Inr (Labels [''EARTHQUAKE'', ''OTHER''])"
    by (simp add: predict_defs ex_defs)
  show ?thesis
    using ex_train [of "Some (3/10)"] ex_embeddings [of "Some (3/10)"] ex_nonempty(1,2)
      ex_threshold [of "Some (3/10)"] ex_rows [of "Some (3/10)"] n v
      predict_threshold_fallback [OF ex_train ex_embeddings ex_nonempty(1,2) ex_threshold ex_rows,
        where sim = ex_sim and output_scores = False]
    by blast
qed

text \<open>
  \<^bold>\<open>C3.\<close> \<^verbatim>\<open>train\<close> never reads \<^verbatim>\<open>self.model\<close>: it encodes the descriptions with the global
  \<^verbatim>\<open>model\<close>. Two classifiers built with different constructor arguments and trained alike
  under the same global binding end with the same outcome and the same label embeddings,
  namely the global model's encoding of the descriptions; changing the \<^verbatim>\<open>model\<close> field of any
  classifier changes nothing in what \<^verbatim>\<open>train\<close> does but that field of the result; and with
  the global name unbound \<^verbatim>\<open>train\<close> raises \<^verbatim>\<open>NameError\<close>. \<^verbatim>\<open>predict\<close>, given texts and no
  embeddings, encodes them with \<^verbatim>\<open>self.model\<close>: it behaves as on the rows that model returns,
  passes on the exception that model raises, and raises \<^verbatim>\<open>AttributeError\<close> when
  \<^verbatim>\<open>self.model\<close> is \<^verbatim>\<open>None\<close>.
\<close>

theorem train_uses_global_model:
  "fst (train g (init m1 t1 nl1) ls ds) = fst (train g (init m2 t2 nl2) ls ds)
   \<and> label_embeddings (snd (train g (init m1 t1 nl1) ls ds))
       = label_embeddings (snd (train g (init m2 t2 nl2) ls ds))
   \<and> train g (self\<lparr>model := m\<rparr>) ls ds
       = (fst (train g self ls ds), (snd (train g self ls ds))\<lparr>model := m\<rparr>)
   \<and> (g = Some gm \<and> gm (Some ds) = Inr E \<longrightarrow>
        train g (init m1 t1 nl1) ls ds
          = (Inr (), \<lparr> model = m1, labels = ls, label_embeddings = Some E,
                       threshold = t1, null_label = nl1 \<rparr>))
   \<and> (g = None \<longrightarrow> fst (train g (init m1 t1 nl1) ls ds) = Inl NameError)
   \<and> (model self = Some sm \<and> sm input_texts = Inr X \<longrightarrow>
        predict sim self input_texts None output_scores
          = predict sim self input_texts (Some X) output_scores)
   \<and> (model self = Some sm \<and> sm input_texts = Inl e \<longrightarrow>
        fst (predict sim self input_texts None output_scores) = Inl e)
   \<and> (model self = None \<longrightarrow>
        fst (predict sim self input_texts None output_scores) = Inl AttributeError)"
proof (intro conjI impI)
  show "fst (train g (init m1 t1 nl1) ls ds) = fst (train g (init m2 t2 nl2) ls ds)"
    by (simp add: train_def init_def Let_def split: option.splits sum.splits)
  show "label_embeddings (snd (train g (init m1 t1 nl1) ls ds))
       = label_embeddings (snd (train g (init m2 t2 nl2) ls ds))"
    by (simp add: train_def init_def Let_def split: option.splits sum.splits)
  show "train g (self\<lparr>model := m\<rparr>) ls ds
       = (fst (train g self ls ds), (snd (train g self ls ds))\<lparr>model := m\<rparr>)"
    by (simp add: train_def Let_def split: option.splits sum.splits)
next
  assume "g = Some gm \<and> gm (Some ds) = Inr E"
  then show "train g (init m1 t1 nl1) ls ds
          = (Inr (), \<lparr> model = m1, labels = ls, label_embeddings = Some E,
                       threshold = t1, null_label = nl1 \<rparr>)"
    by (simp add: train_def init_def Let_def)
next
  assume "g = None"
  then show "fst (train g (init m1 t1 nl1) ls ds) = Inl NameError"
    by (simp add: train_def Let_def)
next
  assume "model self = Some sm \<and> sm input_texts = Inr X"
  then show "predict sim self input_texts None output_scores
          = predict sim self input_texts (Some X) output_scores"
    by (simp add: predict_def input_rows_def)
next
  assume "model self = Some sm \<and> sm input_texts = Inl e"
  then show "fst (predict sim self input_texts None output_scores) = Inl e"
    by (simp add: predict_def input_rows_def)
next
  assume "model self = None"
  then show "fst (predict sim self input_texts None output_scores) = Inl AttributeError"
    by (simp add: predict_def input_rows_def)
qed

theorem train_uses_global_model_witness:
  "ex_model (Some ex_descriptions) = Inr (Array2 2 ex_E)
   \<and> ex_model2 (Some ex_descriptions) = Inr (Array2 2 [(0, 1), (0, 1), (0, 1)])
   \<and> train (Some ex_model) (init (Some ex_model2) None ''OTHER'') ex_labels ex_descriptions
       = (Inr (), \<lparr> model = Some ex_model2, labels = ex_labels, label_embeddings = Some (Array2 2 ex_E),
                    threshold = (None :: real option), null_label = ''OTHER'' \<rparr>)
   \<and> fst (train None (init (Some ex_model2) (None :: real option) ''OTHER'')
            ex_labels ex_descriptions) = Inl NameError
   \<and> model (ex_classifier None) = Some ex_model
   \<and> ex_model (Some ex_texts) = Inr (Array2 2 ex_X)
   \<and> predict ex_sim (ex_classifier None) (Some ex_texts) None False
       = predict ex_sim (ex_classifier None) (Some ex_texts) (Some (Array2 2 ex_X)) False
   \<and> ex_model None = Inl (LibraryError ''encode'')
   \<and> fst (predict ex_sim (ex_classifier None) None None False) = Inl (LibraryError ''encode'')
   \<and> model ((ex_classifier None)\<lparr>model := None\<rparr>) = None
   \<and> fst (predict ex_sim ((ex_classifier None)\<lparr>model := None\<rparr>) (Some ex_texts) None False)
       = Inl AttributeError"
proof -
  have a: "ex_model (Some ex_descriptions) = Inr (Array2 2 ex_E)" by (simp add: ex_defs)
  have b: "ex_model2 (Some ex_descriptions) = Inr (Array2 2 [(0, 1), (0, 1), (0, 1)])"
    by (simp add: ex_model2_def ex_descriptions_def)
  have c: "model (ex_classifier None) = Some ex_model" by (simp add: ex_classifier_def)
  have d: "ex_model (Some ex_texts) = Inr (Array2 2 ex_X)" by (simp add: ex_defs)
  have e: "ex_model None = Inl (LibraryError ''encode'')" by (simp add: ex_model_def)
  have f: "model ((ex_classifier None)\<lparr>model := None\<rparr>) = None" by simp
  note T1 = train_uses_global_model [where g = "Some ex_model" and gm = ex_model and E = "Array2 2 ex_E"
      and ds = ex_descriptions and ls = ex_labels and ?m1.0 = "Some ex_model2"
      and ?t1.0 = "None :: real option" and ?nl1.0 = "''OTHER''"
      and self = "ex_classifier None" and sm = ex_model and input_texts = "Some ex_texts"
      and X = "Array2 2 ex_X" and sim = ex_sim and output_scores = False]
  note T2 = train_uses_global_model [where g = None and ds = ex_descriptions and ls = ex_labels
      and ?m1.0 = "Some ex_model2" and ?t1.0 = "None :: real option" and ?nl1.0 = "''OTHER''"
      and self = "(ex_classifier None)\<lparr>model := None\<rparr>" and input_texts = "Some ex_texts"
      and sim = ex_sim and output_scores = False]
  note T3 = train_uses_global_model [where self = "ex_classifier None" and sm = ex_model
      and input_texts = None and e = "LibraryError ''encode''" and sim = ex_sim
      and output_scores = False]
  note c4 = T1 [THEN conjunct2, THEN conjunct2, THEN conjunct2, THEN conjunct1, THEN mp,
      OF conjI [OF refl a]]
  note c5 = T2 [THEN conjunct2, THEN conjunct2, THEN conjunct2, THEN conjunct2, THEN conjunct1,
      THEN mp, OF refl]
  note c6 = T1 [THEN conjunct2, THEN conjunct2, THEN conjunct2, THEN conjunct2, THEN conjunct2,
      THEN conjunct1, THEN mp, OF conjI [OF c d]]
  note c7 = T3 [THEN conjunct2, THEN conjunct2, THEN conjunct2, THEN conjunct2, THEN conjunct2,
      THEN conjunct2, THEN conjunct1, THEN mp, OF conjI [OF c e]]
  note c8 = T2 [THEN conjunct2, THEN conjunct2, THEN conjunct2, THEN conjunct2, THEN conjunct2,
      THEN conjunct2, THEN conjunct2, THEN mp, OF f]
  show ?thesis
    by (intro conjI a b c4 c5 c c6 d e c7 f c8)
qed

text \<open>
  \<^bold>\<open>C4.\<close> On a trained classifier (at least one label, and an embedding row for every
  label) \<^verbatim>\<open>predict\<close> with \<^verbatim>\<open>output_scores=True\<close> returns the predicted labels, one per row,
  together with one ranked list per row. Each ranked list holds exactly the pairs of a
  trained label and its score for that row, every trained label once per occurrence, in
  non-increasing order of score. With \<^verbatim>\<open>output_scores=False\<close> the call returns the same
  labels alone.
\<close>

theorem predict_output_scores:
  assumes trained: "train g c0 ls ds = (Inr (), self)"
    and emb: "label_embeddings self = Some (Array2 d E)"
    and nonempty: "ls \<noteq> []"
    and paired: "length ls \<le> length E"
    and rows: "input_rows self input_texts input_embeddings = Inr (Array2 d X)"
  shows "\<exists>pl ps. fst (predict sim self input_texts input_embeddings True)
                    = Inr (LabelsAndScores pl ps)
           \<and> fst (predict sim self input_texts input_embeddings False) = Inr (Labels pl)
           \<and> length pl = length X \<and> length ps = length X
           \<and> (\<forall>i<length X.
                  mset (ps ! i) = mset (zip ls (map (sim (X ! i)) E))
                \<and> mset (map fst (ps ! i)) = mset ls
                \<and> sorted_wrt (\<lambda>a b. snd b \<le> snd a) (ps ! i))"
proof -
  from train_Inr [OF trained] have ls: "labels self = ls" by simp
  have ne: "labels self \<noteq> []" using nonempty ls by simp
  have neE: "E \<noteq> []" using nonempty paired by auto
  from predict_rows [OF rows emb ne neE, of sim] obtain pl ps where
    out: "\<forall>os. predict sim self input_texts input_embeddings os =
                 (Inr (if os then LabelsAndScores pl ps else Labels pl), self)"
    and len: "length pl = length X" "length ps = length X"
    and row0: "\<forall>i<length X.
               ps ! i = sorted_reverse snd (zip (labels self) (map (sim (X ! i)) E))
             \<and> (\<exists>j. first_max_index (take (length (labels self)) (map (sim (X ! i)) E)) j
                   \<and> ps ! i \<noteq> []
                   \<and> hd (ps ! i) = (labels self ! j, sim (X ! i) (E ! j))
                   \<and> pl ! i = (case threshold self of
                                 None \<Rightarrow> labels self ! j
                               | Some t \<Rightarrow> if sim (X ! i) (E ! j) < t then null_label self
                                           else labels self ! j))"
    by blast
  have row: "\<forall>i<length X.
                  mset (ps ! i) = mset (zip ls (map (sim (X ! i)) E))
                \<and> mset (map fst (ps ! i)) = mset ls
                \<and> sorted_wrt (\<lambda>a b. snd b \<le> snd a) (ps ! i)"
  proof (intro allI impI)
    fix i assume "i < length X"
    let ?zs = "zip ls (map (sim (X ! i)) E)"
    from row0 \<open>i < length X\<close> ls have psi: "ps ! i = sorted_reverse snd ?zs" by simp
    have m: "mset (ps ! i) = mset ?zs"
      unfolding psi by (rule mset_sorted_reverse)
    have "map fst ?zs = ls"
      using paired by (simp add: map_fst_zip_take)
    moreover have "mset (map fst (ps ! i)) = mset (map fst ?zs)"
      using m by (metis mset_map)
    ultimately have "mset (map fst (ps ! i)) = mset ls" by simp
    moreover have "sorted_wrt (\<lambda>a b. snd b \<le> snd a) (ps ! i)"
      unfolding psi by (rule sorted_reverse_descending)
    ultimately show "mset (ps ! i) = mset ?zs \<and> mset (map fst (ps ! i)) = mset ls
        \<and> sorted_wrt (\<lambda>a b. snd b \<le> snd a) (ps ! i)"
      using m by simp
  qed
  from out have "fst (predict sim self input_texts input_embeddings True)
                    = Inr (LabelsAndScores pl ps)"
    and "fst (predict sim self input_texts input_embeddings False) = Inr (Labels pl)"
    by simp_all
  with len row show ?thesis by blast
qed

theorem predict_output_scores_witness:
  "train (Some ex_model) (init (Some ex_model) (Some (3/10)) ''OTHER'') ex_labels ex_descriptions
     = (Inr (), ex_classifier (Some (3/10)))
   \<and> label_embeddings (ex_classifier (Some (3/10))) = Some (Array2 2 ex_E)
   \<and> ex_labels \<noteq> [] \<and> length ex_labels \<le> length ex_E
   \<and> input_rows (ex_classifier (Some (3/10))) (Some ex_texts) None = Inr (Array2 2 ex_X)
   \<and> fst (predict ex_sim (ex_classifier (Some (3/10))) (Some ex_texts) None True)
       = Inr (LabelsAndScores [''EARTHQUAKE'', ''OTHER'']
               [[(''EARTHQUAKE'', 4/5), (''WILDFIRE'', 3/5), (''FLOODS'', - (4/5))],
                [(''EARTHQUAKE'', 0), (''FLOODS'', 0), (''WILDFIRE'', - 1)]])
   \<and> (\<exists>pl ps. fst (predict ex_sim (ex_classifier (Some (3/10))) (Some ex_texts) None True)
                    = Inr (LabelsAndScores pl ps)
           \<and> fst (predict ex_sim (ex_classifier (Some (3/10))) (Some ex_texts) None False)
               = Inr (Labels pl)
           \<and> length pl = length ex_X \<and> length ps = length ex_X
           \<and> (\<forall>i<length ex_X.
                  mset (ps ! i) = mset (zip ex_labels (map (ex_sim (ex_X ! i)) ex_E))
                \<and> mset (map fst (ps ! i)) = mset ex_labels
                \<and> sorted_wrt (\<lambda>a b. snd b \<le> snd a) (ps ! i)))"
proof -
  have v: "fst (predict ex_sim (ex_classifier (Some (3/10))) (Some ex_texts) None True)
       = Inr (LabelsAndScores [''EARTHQUAKE'', ''OTHER'']
               [[(''EARTHQUAKE'', 4/5), (''WILDFIRE'', 3/5), (''FLOODS'', - (4/5))],
                [(''EARTHQUAKE'', 0), (''FLOODS'', 0), (''WILDFIRE'', - 1)]])"
    by (simp add: predict_defs ex_defs)
  show ?thesis
    using ex_train [of "Some (3/10)"] ex_embeddings [of "Some (3/10)"] ex_nonempty(1,3)
      ex_rows [of "Some (3/10)"] v
      predict_output_scores [OF ex_train ex_embeddings ex_nonempty(1,3) ex_rows,
        where sim = ex_sim]
    by blast
qed

text \<open>
  \<^bold>\<open>C5.\<close> Without a restriction on the labels, "the null label never appears in a ranked
  list" fails where the null label is itself a trained label: below, the threshold fires
  and the ranked list that is returned contains the null label.
\<close>

theorem predict_ranked_list_counterexample:
  "train (Some ex_model) (init (Some ex_model) (Some (3/10)) ''OTHER'')
       [''OTHER'', ''FLOODS''] [''other'', ''floods''] = (Inr (), ex_other)
   \<and> threshold ex_other = Some (3/10)
   \<and> null_label ex_other = ''OTHER''
   \<and> Max (set (map (ex_sim (0, 1)) [(0, -1), (-1, 0)])) < 3/10
   \<and> fst (predict ex_sim ex_other None (Some (Array2 2 [(0, 1)])) True)
       = Inr (LabelsAndScores [''OTHER''] [[(''FLOODS'', 0), (''OTHER'', -1)]])"
proof -
  have "train (Some ex_model) (init (Some ex_model) (Some (3/10)) ''OTHER'')
       [''OTHER'', ''FLOODS''] [''other'', ''floods''] = (Inr (), ex_other)"
    by (simp add: train_def init_def ex_other_def ex_model_def ex_embed_def)
  moreover have "threshold ex_other = Some (3/10)" "null_label ex_other = ''OTHER''"
    by (simp_all add: ex_other_def)
  moreover have "Max (set (map (ex_sim (0, 1)) [(0, -1), (-1, 0)])) < 3/10"
    by (simp add: ex_sim_def)
  moreover have "fst (predict ex_sim ex_other None (Some (Array2 2 [(0, 1)])) True)
       = Inr (LabelsAndScores [''OTHER''] [[(''FLOODS'', 0), (''OTHER'', -1)]])"
    by (simp add: predict_def input_rows_def pytorch_cos_sim_def predict_row_def
        sorted_reverse_def ex_other_def ex_sim_def)
  ultimately show ?thesis by blast
qed

text \<open>
  \<^bold>\<open>C5, amended.\<close> For a row on which the threshold fires, \<^verbatim>\<open>predict\<close> with
  \<^verbatim>\<open>output_scores=True\<close> answers with the null label, while the ranked lists are those of
  the same classifier without a threshold: the head of the row's list is the first trained
  label of greatest similarity, and every label of every ranked list is a trained label.
  So the null label occurs in a ranked list only if it is one of the trained labels; when
  it is not, the label returned for the row differs from the head of the row's list.
\<close>

theorem predict_ranked_list_unmodified:
  assumes trained: "train g c0 ls ds = (Inr (), self)"
    and emb: "label_embeddings self = Some (Array2 d E)"
    and nonempty: "ls \<noteq> []" "E \<noteq> []"
    and thr: "threshold self = Some t"
    and rows: "input_rows self input_texts input_embeddings = Inr (Array2 d X)"
    and i: "i < length X"
    and fires: "Max (set (take (length ls) (map (sim (X ! i)) E))) < t"
  shows "\<exists>pl ps pl0.
            fst (predict sim self input_texts input_embeddings True) = Inr (LabelsAndScores pl ps)
          \<and> fst (predict sim (self\<lparr>threshold := None\<rparr>) input_texts input_embeddings True)
              = Inr (LabelsAndScores pl0 ps)
          \<and> pl ! i = null_label self
          \<and> (\<exists>j. first_max_index (take (length ls) (map (sim (X ! i)) E)) j
                \<and> hd (ps ! i) = (ls ! j, sim (X ! i) (E ! j)) \<and> pl0 ! i = ls ! j)
          \<and> (\<forall>k<length X. fst ` set (ps ! k) \<subseteq> set ls)
          \<and> (null_label self \<notin> set ls \<longrightarrow>
                pl ! i \<noteq> fst (hd (ps ! i))
              \<and> (\<forall>k<length X. null_label self \<notin> fst ` set (ps ! k)))"
proof -
  let ?self0 = "self\<lparr>threshold := None\<rparr>"
  let ?row = "\<lambda>k. map (sim (X ! k)) E"
  from train_Inr [OF trained] have ls: "labels self = ls" by simp
  have ne: "labels self \<noteq> []" using nonempty ls by simp
  from predict_rows [OF rows emb ne nonempty(2), of sim] obtain pl ps where
    out: "\<forall>os. predict sim self input_texts input_embeddings os =
                 (Inr (if os then LabelsAndScores pl ps else Labels pl), self)"
    and len: "length pl = length X" "length ps = length X"
    and row: "\<forall>i<length X.
               ps ! i = sorted_reverse snd (zip (labels self) (?row i))
             \<and> (\<exists>j. first_max_index (take (length (labels self)) (?row i)) j
                   \<and> ps ! i \<noteq> []
                   \<and> hd (ps ! i) = (labels self ! j, sim (X ! i) (E ! j))
                   \<and> pl ! i = (case threshold self of
                                 None \<Rightarrow> labels self ! j
                               | Some t \<Rightarrow> if sim (X ! i) (E ! j) < t then null_label self
                                           else labels self ! j))"
    by blast
  have rows0: "input_rows ?self0 input_texts input_embeddings = Inr (Array2 d X)"
    using rows by (simp add: input_rows_threshold)
  have emb0: "label_embeddings ?self0 = Some (Array2 d E)" using emb by simp
  have ne0: "labels ?self0 \<noteq> []" using ne by simp
  from predict_rows [OF rows0 emb0 ne0 nonempty(2), of sim] obtain pl0 ps0 where
    out0: "\<forall>os. predict sim ?self0 input_texts input_embeddings os =
                 (Inr (if os then LabelsAndScores pl0 ps0 else Labels pl0), ?self0)"
    and len0: "length pl0 = length X" "length ps0 = length X"
    and row0: "\<forall>i<length X.
               ps0 ! i = sorted_reverse snd (zip (labels ?self0) (?row i))
             \<and> (\<exists>j. first_max_index (take (length (labels ?self0)) (?row i)) j
                   \<and> ps0 ! i \<noteq> []
                   \<and> hd (ps0 ! i) = (labels ?self0 ! j, sim (X ! i) (E ! j))
                   \<and> pl0 ! i = (case threshold ?self0 of
                                 None \<Rightarrow> labels ?self0 ! j
                               | Some t \<Rightarrow> if sim (X ! i) (E ! j) < t then null_label ?self0
                                           else labels ?self0 ! j))"
    by blast
  have same: "ps0 = ps"
  proof (rule nth_equalityI)
    show "length ps0 = length ps" using len len0 by simp
  next
    fix k assume "k < length ps0"
    with len0 have "k < length X" by simp
    with row row0 show "ps0 ! k = ps ! k" by simp
  qed
  have ranked: "\<forall>k<length X. ps ! k = sorted_reverse snd (zip ls (?row k))"
    using row ls by simp
  have sub: "\<forall>k<length X. fst ` set (ps ! k) \<subseteq> set ls"
  proof (intro allI impI)
    fix k assume "k < length X"
    with ranked have "ps ! k = sorted_reverse snd (zip ls (?row k))" by blast
    then show "fst ` set (ps ! k) \<subseteq> set ls" by (simp add: set_sorted_zip_labels)
  qed
  from row0 i obtain j where
    j: "first_max_index (take (length ls) (?row i)) j"
    and hd0: "hd (ps0 ! i) = (ls ! j, sim (X ! i) (E ! j))"
    and pl0i: "pl0 ! i = ls ! j"
    using ls by auto
  from first_max_index_take [OF j] have jl: "j < length ls"
    and sj: "take (length ls) (?row i) ! j = sim (X ! i) (E ! j)"
    by simp_all
  from first_max_index_Max [OF j] sj fires have below: "sim (X ! i) (E ! j) < t"
    by simp
  from row i obtain j' where
    j': "first_max_index (take (length ls) (?row i)) j'"
    and hd': "hd (ps ! i) = (ls ! j', sim (X ! i) (E ! j'))"
    and pli': "pl ! i = (if sim (X ! i) (E ! j') < t then null_label self else ls ! j')"
    using ls thr by auto
  from first_max_index_take [OF j'] first_max_index_Max [OF j'] fires
  have "sim (X ! i) (E ! j') < t" by simp
  with pli' have pli: "pl ! i = null_label self" by simp
  have hd: "hd (ps ! i) = (ls ! j, sim (X ! i) (E ! j))"
    using hd0 same by simp
  have "ls ! j \<in> set ls" using jl by simp
  then have differ: "null_label self \<notin> set ls \<longrightarrow> pl ! i \<noteq> fst (hd (ps ! i))"
    using pli hd by auto
  have absent: "null_label self \<notin> set ls \<longrightarrow> (\<forall>k<length X. null_label self \<notin> fst ` set (ps ! k))"
    using sub by blast
  have last: "null_label self \<notin> set ls \<longrightarrow>
                pl ! i \<noteq> fst (hd (ps ! i))
              \<and> (\<forall>k<length X. null_label self \<notin> fst ` set (ps ! k))"
    using differ absent by blast
  have "fst (predict sim self input_texts input_embeddings True) = Inr (LabelsAndScores pl ps)"
    using out by simp
  moreover have "fst (predict sim ?self0 input_texts input_embeddings True)
              = Inr (LabelsAndScores pl0 ps)"
    using out0 same by simp
  moreover have "\<exists>j. first_max_index (take (length ls) (?row i)) j
                \<and> hd (ps ! i) = (ls ! j, sim (X ! i) (E ! j)) \<and> pl0 ! i = ls ! j"
    using j hd pl0i by blast
  ultimately show ?thesis using pli sub last
    by (intro exI [of _ pl] exI [of _ ps] exI [of _ pl0]) (simp only: simp_thms)
qed

theorem predict_ranked_list_unmodified_witness:
  "train (Some ex_model) (init (Some ex_model) (Some (3/10)) ''OTHER'') ex_labels ex_descriptions
     = (Inr (), ex_classifier (Some (3/10)))
   \<and> label_embeddings (ex_classifier (Some (3/10))) = Some (Array2 2 ex_E)
   \<and> ex_labels \<noteq> [] \<and> ex_E \<noteq> []
   \<and> threshold (ex_classifier (Some (3/10))) = Some (3/10)
   \<and> input_rows (ex_classifier (Some (3/10))) (Some ex_texts) None = Inr (Array2 2 ex_X)
   \<and> 1 < length ex_X
   \<and> Max (set (take (length ex_labels) (map (ex_sim (ex_X ! 1)) ex_E))) < 3/10
   \<and> null_label (ex_classifier (Some (3/10))) \<notin> set ex_labels
   \<and> (\<exists>pl ps pl0.
          fst (predict ex_sim (ex_classifier (Some (3/10))) (Some ex_texts) None True)
            = Inr (LabelsAndScores pl ps)
        \<and> fst (predict ex_sim ((ex_classifier (Some (3/10)))\<lparr>threshold := None\<rparr>)
                 (Some ex_texts) None True)
            = Inr (LabelsAndScores pl0 ps)
        \<and> pl ! 1 = null_label (ex_classifier (Some (3/10)))
        \<and> (\<exists>j. first_max_index (take (length ex_labels) (map (ex_sim (ex_X ! 1)) ex_E)) j
              \<and> hd (ps ! 1) = (ex_labels ! j, ex_sim (ex_X ! 1) (ex_E ! j))
              \<and> pl0 ! 1 = ex_labels ! j)
        \<and> (\<forall>k<length ex_X. fst ` set (ps ! k) \<subseteq> set ex_labels)
        \<and> (null_label (ex_classifier (Some (3/10))) \<notin> set ex_labels \<longrightarrow>
              pl ! 1 \<noteq> fst (hd (ps ! 1))
            \<and> (\<forall>k<length ex_X. null_label (ex_classifier (Some (3/10))) \<notin> fst ` set (ps ! k))))"
proof -
  have i: "1 < length ex_X" by (simp add: ex_X_def)
  have fires: "Max (set (take (length ex_labels) (map (ex_sim (ex_X ! 1)) ex_E))) < 3/10"
    by (simp add: ex_defs)
  have n: "null_label (ex_classifier (Some (3/10))) \<notin> set ex_labels"
    by (simp add: ex_classifier_def ex_labels_def)
  note h = ex_train [of "Some (3/10)"] ex_embeddings [of "Some (3/10)"] ex_nonempty(1,2)
    ex_threshold [of "Some (3/10)"] ex_rows [of "Some (3/10)"] i fires
  note c = predict_ranked_list_unmodified [where sim = ex_sim and X = ex_X and i = 1
      and ls = ex_labels and E = ex_E and t = "3/10", OF h]
  show ?thesis
    by (intro conjI h n c)
qed

text \<open>
  \<^bold>\<open>C6.\<close> "Every line after the header that does not split on tab into exactly three
  fields makes the call fail, and no line is repaired" does not hold of the line as it
  stands in the file: \<^verbatim>\<open>line.strip()\<close> removes leading and trailing whitespace, tabs
  included, before the split. The line below ends with a tab and has four fields, and the
  call returns its record.
\<close>

theorem read_dataset_strip_counterexample:
  "ex_fs ''repaired.tsv'' = Some ex_repaired_file
   \<and> drop 1 (file_lines ex_repaired_file) = [ex_repaired_line]
   \<and> length (str_split CHR 0x09 ex_repaired_line) = 4
   \<and> read_dataset ex_fs ''repaired.tsv''
       = Inr [[(''id'', ''1''), (''text'', ''quake''), (''label'', ''EARTHQUAKE'')]]"
  by (simp add: ex_fs_def ex_repaired_file_def ex_repaired_line_def read_dataset_def strip_def
      isspace_def make_item_def)

text \<open>
  \<^bold>\<open>C6, amended.\<close> \<^verbatim>\<open>read_dataset\<close> handles no failure: if any line after the header, once
  stripped of leading and trailing whitespace (tabs included), does not split on tab into
  exactly three fields, the call raises \<^verbatim>\<open>ValueError\<close> from the unpacking and returns no
  dataset, wherever that line stands. No line is skipped, and that stripping is the only
  repair: a call that returns has found three fields in every stripped line after the
  header and returns one record for each. A file that cannot be opened raises as well.
\<close>

theorem read_dataset_no_failure_handling:
  "(fs path = Some content
      \<and> (\<exists>l\<in>set (drop 1 (file_lines content)). length (str_split CHR 0x09 (strip l)) \<noteq> 3)
     \<longrightarrow> read_dataset fs path = Inl ValueError)
   \<and> (fs path = Some content \<and> read_dataset fs path = Inr ds
     \<longrightarrow> list_all (\<lambda>l. length (str_split CHR 0x09 (strip l)) = 3) (drop 1 (file_lines content))
         \<and> length ds = length (drop 1 (file_lines content)))
   \<and> (fs path = None \<longrightarrow> read_dataset fs path = Inl OSError)"
proof (intro conjI impI)
  assume "fs path = Some content
      \<and> (\<exists>l\<in>set (drop 1 (file_lines content)). length (str_split CHR 0x09 (strip l)) \<noteq> 3)"
  then show "read_dataset fs path = Inl ValueError"
    by (simp add: read_dataset_def read_dataset_loop_bad)
next
  assume h: "fs path = Some content \<and> read_dataset fs path = Inr ds"
  then have "fs path = Some content" and "read_dataset fs path = Inr ds" by simp_all
  then have loop: "read_dataset_loop (drop 1 (file_lines content)) [] = Inr ds"
    by (simp add: read_dataset_def)
  show all: "list_all (\<lambda>l. length (str_split CHR 0x09 (strip l)) = 3) (drop 1 (file_lines content))"
  proof (rule ccontr)
    assume "\<not> ?thesis"
    then have "\<exists>l\<in>set (drop 1 (file_lines content)). length (str_split CHR 0x09 (strip l)) \<noteq> 3"
      by (simp add: list_all_iff)
    from read_dataset_loop_bad [OF this, of "[]"] loop show False by simp
  qed
  then have "\<forall>l\<in>set (drop 1 (file_lines content)). length (str_split CHR 0x09 (strip l)) = 3"
    by (simp add: list_all_iff)
  from read_dataset_loop_ok [OF this, of "[]"] loop
  show "length ds = length (drop 1 (file_lines content))"
    by auto
next
  assume "fs path = None"
  then show "read_dataset fs path = Inl OSError"
    by (simp add: read_dataset_def)
qed

theorem read_dataset_no_failure_handling_witness:
  "ex_fs ''bad.tsv'' = Some ex_bad_file
   \<and> (\<exists>l\<in>set (drop 1 (file_lines ex_bad_file)). length (str_split CHR 0x09 (strip l)) \<noteq> 3)
   \<and> read_dataset ex_fs ''bad.tsv'' = Inl ValueError
   \<and> ex_fs ''repaired.tsv'' = Some ex_repaired_file
   \<and> read_dataset ex_fs ''repaired.tsv''
       = Inr [[(''id'', ''1''), (''text'', ''quake''), (''label'', ''EARTHQUAKE'')]]
   \<and> list_all (\<lambda>l. length (str_split CHR 0x09 (strip l)) = 3)
        (drop 1 (file_lines ex_repaired_file))
   \<and> length [[(''id'', ''1''), (''text'', ''quake''), (''label'', ''EARTHQUAKE'')]]
       = length (drop 1 (file_lines ex_repaired_file))
   \<and> ex_fs ''none.tsv'' = None
   \<and> read_dataset ex_fs ''none.tsv'' = Inl OSError"
proof -
  have a: "ex_fs ''bad.tsv'' = Some ex_bad_file" by (simp add: ex_fs_def)
  have b: "\<exists>l\<in>set (drop 1 (file_lines ex_bad_file)). length (str_split CHR 0x09 (strip l)) \<noteq> 3"
    by (simp add: ex_bad_file_def strip_def isspace_def)
  have c: "ex_fs ''none.tsv'' = None" by (simp add: ex_fs_def)
  have d: "ex_fs ''repaired.tsv'' = Some ex_repaired_file" by (simp add: ex_fs_def)
  have e: "read_dataset ex_fs ''repaired.tsv''
       = Inr [[(''id'', ''1''), (''text'', ''quake''), (''label'', ''EARTHQUAKE'')]]"
    by (simp add: ex_fs_def ex_repaired_file_def ex_repaired_line_def read_dataset_def strip_def
        isspace_def make_item_def)
  note T1 = read_dataset_no_failure_handling [where fs = ex_fs and path = "''bad.tsv''"
      and content = ex_bad_file]
  note T2 = read_dataset_no_failure_handling [where fs = ex_fs and path = "''none.tsv''"]
  note T3 = read_dataset_no_failure_handling [where fs = ex_fs and path = "''repaired.tsv''"
      and content = ex_repaired_file
      and ds = "[[(''id'', ''1''), (''text'', ''quake''), (''label'', ''EARTHQUAKE'')]]"]
  note c1 = T1 [THEN conjunct1, THEN mp, OF conjI [OF a b]]
  note c2 = T2 [THEN conjunct2, THEN conjunct2, THEN mp, OF c]
  note c3 = T3 [THEN conjunct2, THEN conjunct1, THEN mp, OF conjI [OF d e]]
  show ?thesis
    by (intro conjI a b c1 d e c3 [THEN conjunct1] c3 [THEN conjunct2] c c2)
qed

text \<open>
  \<^bold>\<open>C7.\<close> "Under an empty list of trained labels the access \<^verbatim>\<open>scored[0]\<close> fails" does not
  hold after \<^verbatim>\<open>train([], [])\<close>: the embeddings of no description are the array of shape
  \<^verbatim>\<open>(0,)\<close>, and \<^verbatim>\<open>predict\<close> on a batch of rows raises \<^verbatim>\<open>RuntimeError\<close> inside
  \<^verbatim>\<open>util.pytorch_cos_sim\<close>, before the loop and its \<^verbatim>\<open>scored[0]\<close>.
\<close>

theorem predict_empty_labels_counterexample:
  "train (Some ex_model) (init (Some ex_model) None ''OTHER'') [] [] = (Inr (), ex_empty)
   \<and> labels ex_empty = []
   \<and> input_rows ex_empty (Some ex_texts) None = Inr (Array2 2 ex_X)
   \<and> pytorch_cos_sim ex_sim (Array2 2 ex_X) (label_embeddings ex_empty) = Inl RuntimeError
   \<and> fst (predict ex_sim ex_empty (Some ex_texts) None False) = Inl RuntimeError"
  by (simp add: train_def init_def ex_empty_def predict_def input_rows_def pytorch_cos_sim_def
      ex_model_def ex_texts_def ex_X_def ex_embed_def)

text \<open>
  \<^bold>\<open>C7, amended.\<close> A classifier trained on at least one label, whose embeddings are a matrix
  with at least one row, returns for every batch that is a matrix of the same number of
  columns one label per row, each of them a trained label or the null label, and every
  ranked list is non-empty, so that \<^verbatim>\<open>scored[0]\<close> is in bounds. With an empty list of labels
  the loop body raises \<^verbatim>\<open>IndexError\<close> at \<^verbatim>\<open>scored[0]\<close> whenever it runs, and \<^verbatim>\<open>predict\<close> raises
  on every batch that has a row: that \<^verbatim>\<open>IndexError\<close> when the label embeddings have as many
  columns as the batch, and otherwise (as after \<^verbatim>\<open>train([], [])\<close>) a \<^verbatim>\<open>RuntimeError\<close> from the
  similarity, before the loop. Before \<^verbatim>\<open>train\<close>, while \<^verbatim>\<open>label_embeddings\<close> is \<^verbatim>\<open>None\<close>,
  every call of \<^verbatim>\<open>predict\<close> raises.
\<close>

theorem predict_label_range_and_failures:
  "(train g c0 ls ds = (Inr (), self) \<and> label_embeddings self = Some (Array2 d E)
      \<and> ls \<noteq> [] \<and> E \<noteq> []
      \<and> input_rows self input_texts input_embeddings = Inr (Array2 d X)
     \<longrightarrow> (\<exists>pl ps.
            fst (predict sim self input_texts input_embeddings True) = Inr (LabelsAndScores pl ps)
          \<and> fst (predict sim self input_texts input_embeddings False) = Inr (Labels pl)
          \<and> length pl = length X \<and> length ps = length X
          \<and> (\<forall>i<length X. pl ! i \<in> set ls \<union> {null_label self} \<and> ps ! i \<noteq> [])))
   \<and> (labels c1 = [] \<longrightarrow> predict_row c1 label_scores = Inl IndexError)
   \<and> (labels c1 = [] \<and> label_embeddings c1 = Some B1
        \<and> input_rows c1 texts1 embeddings1 = Inr A1 \<and> 0 < shape0 A1
     \<longrightarrow> fst (predict sim c1 texts1 embeddings1 output_scores)
           = (if ncols A1 = ncols B1 then Inl IndexError else Inl RuntimeError))
   \<and> (label_embeddings c2 = None
     \<longrightarrow> (\<exists>e. fst (predict sim c2 texts2 embeddings2 output_scores) = Inl e))
   \<and> (\<exists>e. fst (predict sim (init m t nl) texts2 embeddings2 output_scores) = Inl e)"
proof (intro conjI impI)
  assume h: "train g c0 ls ds = (Inr (), self) \<and> label_embeddings self = Some (Array2 d E)
      \<and> ls \<noteq> [] \<and> E \<noteq> [] \<and> input_rows self input_texts input_embeddings = Inr (Array2 d X)"
  then have trained: "train g c0 ls ds = (Inr (), self)"
    and emb: "label_embeddings self = Some (Array2 d E)"
    and nonempty: "ls \<noteq> []" "E \<noteq> []"
    and rows: "input_rows self input_texts input_embeddings = Inr (Array2 d X)"
    by simp_all
  from train_Inr [OF trained] have ls: "labels self = ls" by simp
  have ne: "labels self \<noteq> []" using nonempty ls by simp
  from predict_rows [OF rows emb ne nonempty(2), of sim] obtain pl ps where
    out: "\<forall>os. predict sim self input_texts input_embeddings os =
                 (Inr (if os then LabelsAndScores pl ps else Labels pl), self)"
    and len: "length pl = length X" "length ps = length X"
    and row0: "\<forall>i<length X.
               ps ! i = sorted_reverse snd (zip (labels self) (map (sim (X ! i)) E))
             \<and> (\<exists>j. first_max_index (take (length (labels self)) (map (sim (X ! i)) E)) j
                   \<and> ps ! i \<noteq> []
                   \<and> hd (ps ! i) = (labels self ! j, sim (X ! i) (E ! j))
                   \<and> pl ! i = (case threshold self of
                                 None \<Rightarrow> labels self ! j
                               | Some t \<Rightarrow> if sim (X ! i) (E ! j) < t then null_label self
                                           else labels self ! j))"
    by blast
  have row: "\<forall>i<length X. pl ! i \<in> set ls \<union> {null_label self} \<and> ps ! i \<noteq> []"
  proof (intro allI impI)
    fix i assume "i < length X"
    with row0 obtain j where j: "first_max_index (take (length ls) (map (sim (X ! i)) E)) j"
      and psi: "ps ! i \<noteq> []"
      and pli: "pl ! i = (case threshold self of
                                 None \<Rightarrow> ls ! j
                               | Some t \<Rightarrow> if sim (X ! i) (E ! j) < t then null_label self
                                           else ls ! j)"
      using ls by auto
    from first_max_index_take [OF j] have "ls ! j \<in> set ls" by simp
    with pli psi show "pl ! i \<in> set ls \<union> {null_label self} \<and> ps ! i \<noteq> []"
      by (auto split: option.splits)
  qed
  from out have "fst (predict sim self input_texts input_embeddings True)
                    = Inr (LabelsAndScores pl ps)"
    and "fst (predict sim self input_texts input_embeddings False) = Inr (Labels pl)"
    by simp_all
  with len row show "\<exists>pl ps.
            fst (predict sim self input_texts input_embeddings True) = Inr (LabelsAndScores pl ps)
          \<and> fst (predict sim self input_texts input_embeddings False) = Inr (Labels pl)
          \<and> length pl = length X \<and> length ps = length X
          \<and> (\<forall>i<length X. pl ! i \<in> set ls \<union> {null_label self} \<and> ps ! i \<noteq> [])"
    by blast
next
  assume "labels c1 = []"
  then show "predict_row c1 label_scores = Inl IndexError"
    by (simp add: predict_row_Nil)
next
  assume h: "labels c1 = [] \<and> label_embeddings c1 = Some B1
      \<and> input_rows c1 texts1 embeddings1 = Inr A1 \<and> 0 < shape0 A1"
  then show "fst (predict sim c1 texts1 embeddings1 output_scores)
           = (if ncols A1 = ncols B1 then Inl IndexError else Inl RuntimeError)"
    by (intro predict_no_labels) simp_all
next
  assume "label_embeddings c2 = None"
  then show "\<exists>e. fst (predict sim c2 texts2 embeddings2 output_scores) = Inl e"
    by (rule predict_no_embeddings)
next
  show "\<exists>e. fst (predict sim (init m t nl) texts2 embeddings2 output_scores) = Inl e"
    by (rule predict_no_embeddings) (simp add: init_def)
qed

theorem predict_label_range_and_failures_witness:
  "train (Some ex_model) (init (Some ex_model) (Some (3/10)) ''OTHER'') ex_labels ex_descriptions
     = (Inr (), ex_classifier (Some (3/10)))
   \<and> label_embeddings (ex_classifier (Some (3/10))) = Some (Array2 2 ex_E)
   \<and> ex_labels \<noteq> [] \<and> ex_E \<noteq> []
   \<and> input_rows (ex_classifier (Some (3/10))) (Some ex_texts) None = Inr (Array2 2 ex_X)
   \<and> (\<exists>pl ps.
          fst (predict ex_sim (ex_classifier (Some (3/10))) (Some ex_texts) None True)
            = Inr (LabelsAndScores pl ps)
        \<and> fst (predict ex_sim (ex_classifier (Some (3/10))) (Some ex_texts) None False)
            = Inr (Labels pl)
        \<and> length pl = length ex_X \<and> length ps = length ex_X
        \<and> (\<forall>i<length ex_X.
              pl ! i \<in> set ex_labels \<union> {null_label (ex_classifier (Some (3/10)))}
            \<and> ps ! i \<noteq> []))
   \<and> labels ((ex_classifier None)\<lparr>labels := []\<rparr>) = []
   \<and> predict_row ((ex_classifier None)\<lparr>labels := []\<rparr>) [4/5, 3/5, - (4/5)] = Inl IndexError
   \<and> label_embeddings ((ex_classifier None)\<lparr>labels := []\<rparr>) = Some (Array2 2 ex_E)
   \<and> input_rows ((ex_classifier None)\<lparr>labels := []\<rparr>) None (Some (Array2 2 ex_X))
       = Inr (Array2 2 ex_X)
   \<and> 0 < shape0 (Array2 2 ex_X)
   \<and> fst (predict ex_sim ((ex_classifier None)\<lparr>labels := []\<rparr>) None (Some (Array2 2 ex_X)) False)
       = Inl IndexError
   \<and> labels ex_empty = []
   \<and> label_embeddings ex_empty = Some (Array1 0 (0, 0))
   \<and> input_rows ex_empty (Some ex_texts) None = Inr (Array2 2 ex_X)
   \<and> fst (predict ex_sim ex_empty (Some ex_texts) None False) = Inl RuntimeError
   \<and> label_embeddings (init (Some ex_model) (Some (3/10 :: real)) ''OTHER'') = None
   \<and> (\<exists>e. fst (predict ex_sim (init (Some ex_model) (Some (3/10)) ''OTHER'')
                (Some ex_texts) None False) = Inl e)"
proof -
  let ?c1 = "(ex_classifier None)\<lparr>labels := []\<rparr>"
  let ?c2 = "init (Some ex_model) (Some (3/10 :: real)) ''OTHER''"
  have a: "labels ?c1 = []" by simp
  have b: "label_embeddings ?c1 = Some (Array2 2 ex_E)" by (simp add: ex_classifier_def)
  have c: "input_rows ?c1 None (Some (Array2 2 ex_X)) = Inr (Array2 2 ex_X)"
    by (simp add: input_rows_def)
  have d: "0 < shape0 (Array2 2 ex_X)" by (simp add: ex_X_def)
  have e: "label_embeddings ?c2 = None" by (simp add: init_def)
  have a': "labels ex_empty = []" by (simp add: ex_empty_def)
  have b': "label_embeddings ex_empty = Some (Array1 0 (0, 0))" by (simp add: ex_empty_def)
  have c': "input_rows ex_empty (Some ex_texts) None = Inr (Array2 2 ex_X)"
    by (simp add: input_rows_def ex_empty_def ex_defs)
  note T = predict_label_range_and_failures [where g = "Some ex_model"
        and ?c0.0 = "init (Some ex_model) (Some (3/10)) ''OTHER''"
        and ls = ex_labels and ds = ex_descriptions and self = "ex_classifier (Some (3/10))"
        and d = 2 and E = ex_E and input_texts = "Some ex_texts" and input_embeddings = None
        and X = ex_X and sim = ex_sim
        and ?c1.0 = ?c1 and label_scores = "[4/5, 3/5, - (4/5)]" and ?B1.0 = "Array2 2 ex_E"
        and ?texts1.0 = None and ?embeddings1.0 = "Some (Array2 2 ex_X)"
        and ?A1.0 = "Array2 2 ex_X"
        and output_scores = False
        and ?c2.0 = ?c2 and ?texts2.0 = "Some ex_texts" and ?embeddings2.0 = None
        and m = "Some ex_model" and t = "Some (3/10)" and nl = "''OTHER''"]
  note T' = predict_label_range_and_failures [where ?c1.0 = ex_empty
        and ?B1.0 = "Array1 0 (0, 0)" and ?texts1.0 = "Some ex_texts" and ?embeddings1.0 = None
        and ?A1.0 = "Array2 2 ex_X" and sim = ex_sim and output_scores = False]
  note h = ex_train [of "Some (3/10)"] ex_embeddings [of "Some (3/10)"] ex_nonempty(1,2)
      ex_rows [of "Some (3/10)"]
  have H1: "train (Some ex_model) (init (Some ex_model) (Some (3/10)) ''OTHER'') ex_labels
        ex_descriptions = (Inr (), ex_classifier (Some (3/10)))
      \<and> label_embeddings (ex_classifier (Some (3/10))) = Some (Array2 2 ex_E)
      \<and> ex_labels \<noteq> [] \<and> ex_E \<noteq> []
      \<and> input_rows (ex_classifier (Some (3/10))) (Some ex_texts) None = Inr (Array2 2 ex_X)"
    by (intro conjI h)
  have H3: "labels ?c1 = [] \<and> label_embeddings ?c1 = Some (Array2 2 ex_E)
      \<and> input_rows ?c1 None (Some (Array2 2 ex_X)) = Inr (Array2 2 ex_X)
      \<and> 0 < shape0 (Array2 2 ex_X)"
    by (intro conjI a b c d)
  have H3': "labels ex_empty = [] \<and> label_embeddings ex_empty = Some (Array1 0 (0, 0))
      \<and> input_rows ex_empty (Some ex_texts) None = Inr (Array2 2 ex_X)
      \<and> 0 < shape0 (Array2 2 ex_X)"
    by (intro conjI a' b' c' d)
  note c1 = T [THEN conjunct1, THEN mp, OF H1]
  note c2 = T [THEN conjunct2, THEN conjunct1, THEN mp, OF a]
  have c3: "fst (predict ex_sim ?c1 None (Some (Array2 2 ex_X)) False) = Inl IndexError"
    using T [THEN conjunct2, THEN conjunct2, THEN conjunct1, THEN mp, OF H3] by simp
  have c3': "fst (predict ex_sim ex_empty (Some ex_texts) None False) = Inl RuntimeError"
    using T' [THEN conjunct2, THEN conjunct2, THEN conjunct1, THEN mp, OF H3'] by simp
  note c4 = T [THEN conjunct2, THEN conjunct2, THEN conjunct2, THEN conjunct1, THEN mp, OF e]
  show ?thesis
    by (intro conjI h c1 a c2 b c d c3 a' b' c' c3' e c4)
qed

text \<open>
  \<^bold>\<open>C8.\<close> \<^verbatim>\<open>predict\<close> leaves the classifier as it found it, whether it returns or raises.
  After \<^verbatim>\<open>__init__\<close> and a successful \<^verbatim>\<open>train\<close>, the fields after any call of \<^verbatim>\<open>predict\<close>
  are the constructor's model, threshold and null label, the labels given to \<^verbatim>\<open>train\<close>
  and the embeddings that \<^verbatim>\<open>train\<close> computed from the descriptions. \<^verbatim>\<open>predict\<close> does not
  encode the descriptions again: its outcome depends on \<^verbatim>\<open>self.model\<close> only through what
  that model returns for the input texts, and not at all when the embeddings are given.
\<close>

theorem predict_leaves_state:
  "snd (predict sim self input_texts input_embeddings output_scores) = self
   \<and> (train g (init m t nl) ls ds = (Inr (), self0) \<longrightarrow>
        (\<exists>gm E. g = Some gm \<and> gm (Some ds) = Inr E
           \<and> snd (predict sim self0 input_texts input_embeddings output_scores)
               = \<lparr> model = m, labels = ls, label_embeddings = Some E,
                   threshold = t, null_label = nl \<rparr>))
   \<and> (m1 input_texts = m2 input_texts \<longrightarrow>
        fst (predict sim (self\<lparr>model := Some m1\<rparr>) input_texts input_embeddings output_scores)
          = fst (predict sim (self\<lparr>model := Some m2\<rparr>) input_texts input_embeddings
                   output_scores))
   \<and> fst (predict sim (self\<lparr>model := mm\<rparr>) input_texts (Some X) output_scores)
       = fst (predict sim self input_texts (Some X) output_scores)"
proof (intro conjI impI)
  show "snd (predict sim self input_texts input_embeddings output_scores) = self"
    by (rule predict_state)
next
  assume "train g (init m t nl) ls ds = (Inr (), self0)"
  then show "\<exists>gm E. g = Some gm \<and> gm (Some ds) = Inr E
           \<and> snd (predict sim self0 input_texts input_embeddings output_scores)
               = \<lparr> model = m, labels = ls, label_embeddings = Some E,
                   threshold = t, null_label = nl \<rparr>"
    by (auto simp: predict_state train_def init_def Let_def split: option.splits sum.splits)
next
  assume eq: "m1 input_texts = m2 input_texts"
  have "input_rows (self\<lparr>model := Some m1\<rparr>) input_texts input_embeddings
      = input_rows (self\<lparr>model := Some m2\<rparr>) input_texts input_embeddings"
    using eq by (simp add: input_rows_def split: option.splits)
  then have "input_rows (self\<lparr>model := Some m1\<rparr>\<lparr>model := Some m2\<rparr>) input_texts input_embeddings
      = input_rows (self\<lparr>model := Some m1\<rparr>) input_texts input_embeddings"
    by simp
  from predict_result_model [OF this, of sim output_scores]
  show "fst (predict sim (self\<lparr>model := Some m1\<rparr>) input_texts input_embeddings output_scores)
          = fst (predict sim (self\<lparr>model := Some m2\<rparr>) input_texts input_embeddings
                   output_scores)"
    by simp
next
  show "fst (predict sim (self\<lparr>model := mm\<rparr>) input_texts (Some X) output_scores)
       = fst (predict sim self input_texts (Some X) output_scores)"
    by (rule predict_result_model) (simp add: input_rows_def)
qed

theorem predict_leaves_state_witness:
  "train (Some ex_model) (init (Some ex_model) (Some (3/10)) ''OTHER'') ex_labels ex_descriptions
     = (Inr (), ex_classifier (Some (3/10)))
   \<and> (\<exists>gm E. Some ex_model = Some gm \<and> gm (Some ex_descriptions) = Inr E
         \<and> snd (predict ex_sim (ex_classifier (Some (3/10))) (Some ex_texts) None True)
             = \<lparr> model = Some ex_model, labels = ex_labels, label_embeddings = Some E,
                 threshold = Some (3/10), null_label = ''OTHER'' \<rparr>)
   \<and> ex_model (Some ex_texts) = ex_model3 (Some ex_texts)
   \<and> ex_model (Some ex_descriptions) \<noteq> ex_model3 (Some ex_descriptions)
   \<and> fst (predict ex_sim ((ex_classifier (Some (3/10)))\<lparr>model := Some ex_model\<rparr>)
            (Some ex_texts) None True)
       = fst (predict ex_sim ((ex_classifier (Some (3/10)))\<lparr>model := Some ex_model3\<rparr>)
            (Some ex_texts) None True)"
proof -
  have a: "ex_model (Some ex_texts) = ex_model3 (Some ex_texts)"
    by (simp add: ex_model3_def ex_texts_def ex_descriptions_def)
  have b: "ex_model (Some ex_descriptions) \<noteq> ex_model3 (Some ex_descriptions)"
    by (simp add: ex_model3_def ex_model_def)
  note T = predict_leaves_state [where g = "Some ex_model" and m = "Some ex_model"
      and t = "Some (3/10)" and nl = "''OTHER''" and ls = ex_labels and ds = ex_descriptions
      and ?self0.0 = "ex_classifier (Some (3/10))" and sim = ex_sim
      and input_texts = "Some ex_texts" and input_embeddings = None and output_scores = True
      and self = "ex_classifier (Some (3/10))" and ?m1.0 = ex_model and ?m2.0 = ex_model3]
  note c2 = T [THEN conjunct2, THEN conjunct1, THEN mp, OF ex_train]
  note c3 = T [THEN conjunct2, THEN conjunct2, THEN conjunct1, THEN mp, OF a]
  show ?thesis
    by (intro conjI ex_train c2 a b c3)
qed

text \<open>
  \<^bold>\<open>C9.\<close> Raising the threshold from \<open>t\<close> to \<open>t'\<close> and changing nothing else: wherever
  the first classifier returns, so does the second, with as many labels; every row
  answered with the null label by the first is answered with the null label by the second;
  and a row that both answer with a label other than the null label gets the same label
  from both.
\<close>

theorem threshold_monotone:
  assumes thr: "threshold self = Some t" and le: "t \<le> t'"
    and ok: "fst (predict sim self input_texts input_embeddings output_scores) = Inr out"
  shows "\<exists>out'. fst (predict sim (self\<lparr>threshold := Some t'\<rparr>) input_texts input_embeddings
                        output_scores) = Inr out'
           \<and> length (predicted_labels_of out') = length (predicted_labels_of out)
           \<and> (\<forall>i<length (predicted_labels_of out).
                 (predicted_labels_of out ! i = null_label self
                    \<longrightarrow> predicted_labels_of out' ! i = null_label self)
               \<and> (predicted_labels_of out ! i \<noteq> null_label self
                    \<and> predicted_labels_of out' ! i \<noteq> null_label self
                    \<longrightarrow> predicted_labels_of out' ! i = predicted_labels_of out ! i))"
proof -
  let ?self' = "self\<lparr>threshold := Some t'\<rparr>"
  from predict_Inr_elim [OF ok] obtain X S pl ps where
    rows: "input_rows self input_texts input_embeddings = Inr X"
    and sims: "pytorch_cos_sim sim X (label_embeddings self) = Inr S"
    and loop: "predict_loop self S [0..<shape0 X] [] [] = Inr (pl, ps)"
    and out: "out = (if output_scores then LabelsAndScores pl ps else Labels pl)"
    by blast
  let ?idx = "[0..<shape0 X]"
  from predict_loop_Inr [OF loop] have len: "length pl = length ?idx" "length ps = length ?idx"
    and row: "\<forall>k<length ?idx. ?idx ! k < length S
                \<and> predict_row self (S ! (?idx ! k)) = Inr (pl ! k, ps ! k)"
    by auto
  have all: "\<forall>i\<in>set ?idx. i < length S \<and> zip (labels ?self') (S ! i) \<noteq> []"
  proof
    fix i assume "i \<in> set ?idx"
    then obtain k where k: "k < length ?idx" "?idx ! k = i"
      by (auto simp: in_set_conv_nth)
    with row have i: "i < length S" and "predict_row self (S ! i) = Inr (pl ! k, ps ! k)"
      by auto
    then have "zip (labels self) (S ! i) \<noteq> []"
      using predict_row_Nil [of self "S ! i"] by auto
    with i show "i < length S \<and> zip (labels ?self') (S ! i) \<noteq> []" by simp
  qed
  from predict_loop_total [OF all, of "[]" "[]"] obtain pl' ps'
    where loop': "predict_loop ?self' S ?idx [] [] = Inr (pl', ps')"
    by auto
  from predict_loop_Inr [OF loop'] have len': "length pl' = length ?idx"
    and row': "\<forall>k<length ?idx. predict_row ?self' (S ! (?idx ! k)) = Inr (pl' ! k, ps' ! k)"
    by auto
  let ?out' = "if output_scores then LabelsAndScores pl' ps' else Labels pl'"
  have rows': "input_rows ?self' input_texts input_embeddings = Inr X"
    using rows by (simp add: input_rows_threshold)
  have sims': "pytorch_cos_sim sim X (label_embeddings ?self') = Inr S" using sims by simp
  have res: "fst (predict sim ?self' input_texts input_embeddings output_scores) = Inr ?out'"
    using predict_unfold_gen [OF rows' sims', of output_scores] loop' by simp
  have pl: "predicted_labels_of out = pl" "predicted_labels_of ?out' = pl'"
    using out by simp_all
  have rel: "\<forall>i<length pl.
                 (pl ! i = null_label self \<longrightarrow> pl' ! i = null_label self)
               \<and> (pl ! i \<noteq> null_label self \<and> pl' ! i \<noteq> null_label self \<longrightarrow> pl' ! i = pl ! i)"
  proof (intro allI impI)
    fix i assume "i < length pl"
    with len have i: "i < length ?idx" by simp
    with row have r: "predict_row self (S ! (?idx ! i)) = Inr (pl ! i, ps ! i)" by blast
    from predict_row_threshold_mono [OF thr le r] obtain p' where
      p': "predict_row ?self' (S ! (?idx ! i)) = Inr (p', ps ! i)"
        "pl ! i = null_label self \<longrightarrow> p' = null_label self"
        "pl ! i \<noteq> null_label self \<and> p' \<noteq> null_label self \<longrightarrow> p' = pl ! i"
      by blast
    from row' i have "predict_row ?self' (S ! (?idx ! i)) = Inr (pl' ! i, ps' ! i)" by blast
    with p'(1) have "pl' ! i = p'" by simp
    with p'(2,3) show "(pl ! i = null_label self \<longrightarrow> pl' ! i = null_label self)
               \<and> (pl ! i \<noteq> null_label self \<and> pl' ! i \<noteq> null_label self \<longrightarrow> pl' ! i = pl ! i)"
      by simp
  qed
  show ?thesis
    using res rel len len' unfolding pl(1)
    by (intro exI [of _ ?out']) (simp only: pl(2) simp_thms)
qed

theorem threshold_monotone_witness:
  "threshold (ex_classifier (Some (3/10))) = Some (3/10)
   \<and> (3/10 :: real) \<le> 7/10
   \<and> fst (predict ex_sim (ex_classifier (Some (3/10))) (Some ex_texts) None False)
       = Inr (Labels [''EARTHQUAKE'', ''OTHER''])
   \<and> (\<exists>out'. fst (predict ex_sim ((ex_classifier (Some (3/10)))\<lparr>threshold := Some (7/10)\<rparr>)
                   (Some ex_texts) None False) = Inr out'
         \<and> length (predicted_labels_of out')
             = length (predicted_labels_of (Labels [''EARTHQUAKE'', ''OTHER''] :: real prediction))
         \<and> (\<forall>i<length (predicted_labels_of (Labels [''EARTHQUAKE'', ''OTHER''] :: real prediction)).
               (predicted_labels_of (Labels [''EARTHQUAKE'', ''OTHER''] :: real prediction) ! i
                  = null_label (ex_classifier (Some (3/10)))
                \<longrightarrow> predicted_labels_of out' ! i = null_label (ex_classifier (Some (3/10))))
             \<and> (predicted_labels_of (Labels [''EARTHQUAKE'', ''OTHER''] :: real prediction) ! i
                  \<noteq> null_label (ex_classifier (Some (3/10)))
                \<and> predicted_labels_of out' ! i \<noteq> null_label (ex_classifier (Some (3/10)))
                \<longrightarrow> predicted_labels_of out' ! i
                      = predicted_labels_of (Labels [''EARTHQUAKE'', ''OTHER''] :: real prediction) ! i)))"
proof -
  have le: "(3/10 :: real) \<le> 7/10" by simp
  have v: "fst (predict ex_sim (ex_classifier (Some (3/10))) (Some ex_texts) None False)
       = Inr (Labels [''EARTHQUAKE'', ''OTHER''])"
    by (simp add: predict_defs ex_defs upt_conv_Cons)
  note c = threshold_monotone [OF ex_threshold [of "Some (3/10)"] le v]
  show ?thesis
    by (intro conjI ex_threshold le v c)
qed

text \<open>
  \<^bold>\<open>C10.\<close> On a file each of whose lines after the first, stripped of surrounding
  whitespace, splits on tab into three fields, \<^verbatim>\<open>read_dataset\<close> returns one record per line
  after the first, in the order of the file; the record of a line maps \<^verbatim>\<open>"id"\<close>, \<^verbatim>\<open>"text"\<close>
  and \<^verbatim>\<open>"label"\<close>, in this order, to the three fields of the stripped line. The first line is
  skipped, whatever it holds. The result has one record less than the file has lines (and
  none for a file without any line).
\<close>

theorem read_dataset_records:
  assumes opened: "fs path = Some content"
    and fields: "\<forall>l\<in>set (drop 1 (file_lines content)). length (str_split CHR 0x09 (strip l)) = 3"
  shows "\<exists>ds. read_dataset fs path = Inr ds
           \<and> length ds = length (drop 1 (file_lines content))
           \<and> (file_lines content \<noteq> [] \<longrightarrow> length ds + 1 = length (file_lines content))
           \<and> (\<forall>k<length ds. \<exists>i t l.
                  str_split CHR 0x09 (strip (file_lines content ! (k + 1))) = [i, t, l]
                \<and> ds ! k = [(''id'', i), (''text'', t), (''label'', l)])"
proof -
  let ?lines = "drop 1 (file_lines content)"
  from read_dataset_loop_ok [OF fields, of "[]"] obtain ds where
    ds: "read_dataset_loop ?lines [] = Inr ds" "length ds = length ?lines"
      "\<forall>k<length ?lines. \<exists>i t l. str_split CHR 0x09 (strip (?lines ! k)) = [i, t, l]
          \<and> ds ! k = [(''id'', i), (''text'', t), (''label'', l)]"
    by auto
  have "read_dataset fs path = Inr ds"
    using opened ds(1) by (simp add: read_dataset_def)
  moreover have "file_lines content \<noteq> [] \<longrightarrow> length ds + 1 = length (file_lines content)"
    using ds(2) by (cases "file_lines content") simp_all
  moreover have "\<forall>k<length ds. \<exists>i t l.
                  str_split CHR 0x09 (strip (file_lines content ! (k + 1))) = [i, t, l]
                \<and> ds ! k = [(''id'', i), (''text'', t), (''label'', l)]"
  proof (intro allI impI)
    fix k assume k: "k < length ds"
    with ds(2) have "?lines ! k = file_lines content ! (k + 1)"
      by (simp add: add.commute)
    with ds(2,3) k show "\<exists>i t l.
                  str_split CHR 0x09 (strip (file_lines content ! (k + 1))) = [i, t, l]
                \<and> ds ! k = [(''id'', i), (''text'', t), (''label'', l)]"
      by metis
  qed
  ultimately show ?thesis using ds(2) by blast
qed

theorem read_dataset_records_witness:
  "ex_fs ''test.tsv'' = Some ex_file
   \<and> list_all (\<lambda>l. length (str_split CHR 0x09 (strip l)) = 3) (drop 1 (file_lines ex_file))
   \<and> file_lines ex_file \<noteq> []
   \<and> read_dataset ex_fs ''test.tsv''
       = Inr [[(''id'', ''1''), (''text'', ''quake''), (''label'', ''EARTHQUAKE'')],
              [(''id'', ''2''), (''text'', ''flood''), (''label'', ''FLOODS'')]]
   \<and> (\<exists>ds. read_dataset ex_fs ''test.tsv'' = Inr ds
          \<and> length ds = length (drop 1 (file_lines ex_file))
          \<and> (file_lines ex_file \<noteq> [] \<longrightarrow> length ds + 1 = length (file_lines ex_file))
          \<and> (\<forall>k<length ds. \<exists>i t l.
                 str_split CHR 0x09 (strip (file_lines ex_file ! (k + 1))) = [i, t, l]
               \<and> ds ! k = [(''id'', i), (''text'', t), (''label'', l)]))"
proof -
  have a: "ex_fs ''test.tsv'' = Some ex_file" by (simp add: ex_fs_def)
  have b': "list_all (\<lambda>l. length (str_split CHR 0x09 (strip l)) = 3) (drop 1 (file_lines ex_file))"
    by (simp add: ex_file_def strip_def isspace_def)
  then have b: "\<forall>l\<in>set (drop 1 (file_lines ex_file)). length (str_split CHR 0x09 (strip l)) = 3"
    by (simp only: list_all_iff)
  have c: "file_lines ex_file \<noteq> []" by (simp add: ex_file_def)
  have v: "read_dataset ex_fs ''test.tsv''
       = Inr [[(''id'', ''1''), (''text'', ''quake''), (''label'', ''EARTHQUAKE'')],
              [(''id'', ''2''), (''text'', ''flood''), (''label'', ''FLOODS'')]]"
    by (simp add: read_dataset_def ex_fs_def ex_file_def strip_def isspace_def make_item_def)
  note r = read_dataset_records [where fs = ex_fs and path = "''test.tsv''" and content = ex_file,
      OF a b]
  show ?thesis
    by (intro conjI a b' c v r)
qed

end
